theory Spec2Isabelle
  imports Complex_Main "HOL-Library.Word" "HOL-Library.Stream"
begin

unbundle bit_operations_syntax

section \<open>Shared platform data: raw input, clock\<close>

text \<open>
  Both programs (\<^verbatim>\<open>reaction.cpp\<close>, the reaction time tester, and \<^verbatim>\<open>main.cpp\<close>, the
  latency tester) keep all their state in one global \<^verbatim>\<open>g_app\<close> and run on a single
  thread: the message pump dispatches to \<^verbatim>\<open>WndProc\<close>, then \<^verbatim>\<open>Render\<close> runs. The model
  passes the state explicitly.

  Conventions of the model.
  \<^item> A \<^verbatim>\<open>Clock::time_point\<close> is an integer count of nanosecond ticks.
  \<^item> A C++ \<^verbatim>\<open>float\<close> or \<^verbatim>\<open>double\<close> is a real number: rounding is not modelled.
  \<^item> \<^verbatim>\<open>Clock::now()\<close> reads the environment. The readings the clock will return are a
    stream held in the field \<open>clock\<close>; each call takes the head.
  \<^item> Direct3D, Direct2D and window management calls do not touch the modelled state
    and are left out.
\<close>

record RAWMOUSE =
  usButtonFlags :: "16 word"
  usButtonData :: "16 word"
  lLastX :: "32 word"
  lLastY :: "32 word"

record RAWKEYBOARD =
  MakeCode :: "16 word"
  Flags :: "16 word"
  VKey :: "16 word"

text \<open>
  \<^verbatim>\<open>RAWINPUT\<close> is a tagged union: \<^verbatim>\<open>header.dwType\<close> selects the member of \<^verbatim>\<open>data\<close>.
  \<^verbatim>\<open>header.hDevice\<close> is the device handle.
\<close>

datatype RAWDATA = RIM_TYPEMOUSE RAWMOUSE | RIM_TYPEKEYBOARD RAWKEYBOARD | RIM_TYPEHID

record RAWINPUT =
  hDevice :: nat
  data :: RAWDATA

text \<open>Button flag bits of \<^verbatim>\<open>RAWMOUSE.usButtonFlags\<close> and key flags (Windows SDK values).\<close>

definition RI_MOUSE_LEFT_BUTTON_DOWN :: "16 word" where "RI_MOUSE_LEFT_BUTTON_DOWN = 0x0001"
definition RI_MOUSE_LEFT_BUTTON_UP :: "16 word" where "RI_MOUSE_LEFT_BUTTON_UP = 0x0002"
definition RI_MOUSE_RIGHT_BUTTON_DOWN :: "16 word" where "RI_MOUSE_RIGHT_BUTTON_DOWN = 0x0004"
definition RI_MOUSE_RIGHT_BUTTON_UP :: "16 word" where "RI_MOUSE_RIGHT_BUTTON_UP = 0x0008"
definition RI_MOUSE_MIDDLE_BUTTON_DOWN :: "16 word" where "RI_MOUSE_MIDDLE_BUTTON_DOWN = 0x0010"
definition RI_MOUSE_MIDDLE_BUTTON_UP :: "16 word" where "RI_MOUSE_MIDDLE_BUTTON_UP = 0x0020"
definition RI_MOUSE_BUTTON_4_DOWN :: "16 word" where "RI_MOUSE_BUTTON_4_DOWN = 0x0040"
definition RI_MOUSE_BUTTON_4_UP :: "16 word" where "RI_MOUSE_BUTTON_4_UP = 0x0080"
definition RI_MOUSE_BUTTON_5_DOWN :: "16 word" where "RI_MOUSE_BUTTON_5_DOWN = 0x0100"
definition RI_MOUSE_BUTTON_5_UP :: "16 word" where "RI_MOUSE_BUTTON_5_UP = 0x0200"
definition RI_MOUSE_WHEEL :: "16 word" where "RI_MOUSE_WHEEL = 0x0400"
definition RI_KEY_BREAK :: "16 word" where "RI_KEY_BREAK = 1"
definition RI_KEY_E0 :: "16 word" where "RI_KEY_E0 = 2"

text \<open>Virtual key codes used by the two window procedures (Windows SDK values).\<close>

definition VK_ESCAPE :: nat where "VK_ESCAPE = 0x1B"
definition VK_SPACE :: nat where "VK_SPACE = 0x20"
definition VK_F1 :: nat where "VK_F1 = 0x70"
definition VK_F2 :: nat where "VK_F2 = 0x71"
definition VK_F3 :: nat where "VK_F3 = 0x72"
definition VK_F4 :: nat where "VK_F4 = 0x73"
definition VK_F5 :: nat where "VK_F5 = 0x74"
definition VK_F6 :: nat where "VK_F6 = 0x75"
definition VK_F7 :: nat where "VK_F7 = 0x76"
definition VK_F8 :: nat where "VK_F8 = 0x77"
definition VK_F9 :: nat where "VK_F9 = 0x78"
definition VK_F10 :: nat where "VK_F10 = 0x79"

text \<open>The window messages the window procedures distinguish; \<open>WM_OTHER\<close> is any other.\<close>

datatype MSG =
  WM_INPUT "RAWINPUT option"
  | WM_KEYDOWN nat
  | WM_SYSKEYDOWN nat
  | WM_DESTROY
  | WM_OTHER

text \<open>
  \<^verbatim>\<open>std::chrono::duration<float, std::milli>(a - b).count()\<close>: the difference of two
  time points in milliseconds.
\<close>

definition duration_ms :: "int \<Rightarrow> int \<Rightarrow> real" where
  "duration_ms a b = real_of_int (a - b) / 1000000"

text \<open>
  \<^verbatim>\<open>std::chrono::duration_cast<std::chrono::milliseconds>(a - b).count()\<close>: whole
  milliseconds, truncated towards zero.
\<close>

definition duration_cast_ms :: "int \<Rightarrow> int \<Rightarrow> int" where
  "duration_cast_ms a b = sgn (a - b) * (\<bar>a - b\<bar> div 1000000)"

section \<open>The reaction time tester (reaction.cpp)\<close>

definition MIN_DELAY_MS :: real where "MIN_DELAY_MS = 1500"
definition MAX_DELAY_MS :: real where "MAX_DELAY_MS = 5000"
definition MAX_LOG_ENTRIES :: nat where "MAX_LOG_ENTRIES = 25"

definition TONE_FREQ_HZ :: real where "TONE_FREQ_HZ = 800"
definition TONE_DURATION_MS :: real where "TONE_DURATION_MS = 80"

datatype TestState = Waiting | Flashing | TooEarly

record WAVEFORMATEX =
  nSamplesPerSec :: "32 word"
  nChannels :: "16 word"
  wBitsPerSample :: "16 word"

text \<open>
  The fields of \<^verbatim>\<open>AppState\<close> that the input handler, the round logic and the tone
  engine read or write. \<open>rng\<close> is the generator together with the distribution of
  \<^verbatim>\<open>GetRandomDelay\<close>: the stream of values that successive draws return.

  Three fields are not in the source. \<open>clock\<close> holds the future clock readings.
  \<open>roundNo\<close> counts the calls of \<^verbatim>\<open>StartNewRound\<close>, and \<open>beepLog\<close> records every
  call of \<^verbatim>\<open>PlayBeepWASAPI\<close>, newest first: the round it was made in and the number of
  frames handed to the render client (\<open>None\<close> when the call returned without writing).
  Nothing in the program reads the last two.
\<close>

record AppState =
  state :: TestState
  roundStartTime :: int
  flashStartTime :: int
  targetDelayMs :: real
  reactionTimes :: "real list"
  lastReactionTime :: real
  averageTime :: real
  bestTime :: real
  rng :: "real stream"
  running :: bool
  audioMode :: bool
  beepPlayed :: bool
  audioFormat :: WAVEFORMATEX
  audioBufferFrames :: "32 word"
  audioInitialized :: bool
  clock :: "int stream"
  roundNo :: nat
  beepLog :: "(nat \<times> 32 word option) list"

definition Clock_now :: "AppState \<Rightarrow> int \<times> AppState" where
  "Clock_now s = (shd (clock s), s\<lparr>clock := stl (clock s)\<rparr>)"

text \<open>
  \<^verbatim>\<open>GetRandomDelay\<close> builds a \<^verbatim>\<open>std::uniform_real_distribution<float>\<close> on
  \<^verbatim>\<open>MIN_DELAY_MS\<close> and \<^verbatim>\<open>MAX_DELAY_MS\<close> and applies it to the generator. The library
  computes the value; the model takes it from the stream \<open>rng\<close> and advances the
  stream, so that no two calls see the same draw.
\<close>

definition GetRandomDelay :: "AppState \<Rightarrow> real \<times> AppState" where
  "GetRandomDelay s = (shd (rng s), s\<lparr>rng := stl (rng s)\<rparr>)"

definition StartNewRound :: "AppState \<Rightarrow> AppState" where
  "StartNewRound s =
     (let s1 = s\<lparr>state := Waiting\<rparr>;
          (now, s2) = Clock_now s1;
          s3 = s2\<lparr>roundStartTime := now\<rparr>;
          (d, s4) = GetRandomDelay s3
      in s4\<lparr>targetDelayMs := d, beepPlayed := False, roundNo := Suc (roundNo s4)\<rparr>)"

text \<open>
  \<^verbatim>\<open>UpdateStats\<close> reads \<^verbatim>\<open>reactionTimes[0]\<close> and divides by \<^verbatim>\<open>reactionTimes.size()\<close>.
  An index outside the vector and a zero divisor are faults of the model: the result
  is \<open>None\<close>.
\<close>

definition vec_at :: "'a list \<Rightarrow> nat \<Rightarrow> 'a option" where
  "vec_at xs i = (if i < length xs then Some (xs ! i) else None)"

definition div_size :: "real \<Rightarrow> nat \<Rightarrow> real option" where
  "div_size x n = (if n = 0 then None else Some (x / real n))"

text \<open>One iteration of the loop of \<^verbatim>\<open>UpdateStats\<close> on the pair \<open>(sum, best)\<close>.\<close>

definition stats_step :: "real \<Rightarrow> real \<times> real \<Rightarrow> real \<times> real" where
  "stats_step t acc = (fst acc + t, if t < snd acc then t else snd acc)"

definition UpdateStats :: "AppState \<Rightarrow> AppState option" where
  "UpdateStats s =
     (if reactionTimes s = [] then Some s
      else case vec_at (reactionTimes s) 0 of
             None \<Rightarrow> None
           | Some best0 \<Rightarrow>
               (let (sum, best) = fold stats_step (reactionTimes s) (0, best0)
                in case div_size sum (length (reactionTimes s)) of
                     None \<Rightarrow> None
                   | Some avg \<Rightarrow> Some (s\<lparr>averageTime := avg, bestTime := best\<rparr>)))"

text \<open>
  The frame count of the tone: \<^verbatim>\<open>(UINT32)(sampleRate * TONE_DURATION_MS / 1000.0f)\<close>,
  clamped to the buffer size.
\<close>

definition toneSamples :: "AppState \<Rightarrow> 32 word" where
  "toneSamples s =
     (let sampleRate = nSamplesPerSec (audioFormat s);
          n = (word_of_int \<lfloor>real (unat sampleRate) * TONE_DURATION_MS / 1000\<rfloor> :: 32 word)
      in if n > audioBufferFrames s then audioBufferFrames s else n)"

text \<open>
  \<^verbatim>\<open>PlayBeepWASAPI\<close>. \<open>getBufferOk\<close> is the outcome of \<^verbatim>\<open>GetBuffer\<close>. The sample values
  written into the buffer (a sine wave) are not modelled, only the number of frames
  requested from and released to the render client.
\<close>

definition PlayBeepWASAPI :: "bool \<Rightarrow> AppState \<Rightarrow> AppState" where
  "PlayBeepWASAPI getBufferOk s =
     (if \<not> audioInitialized s then s\<lparr>beepLog := (roundNo s, None) # beepLog s\<rparr>
      else if \<not> getBufferOk then s\<lparr>beepLog := (roundNo s, None) # beepLog s\<rparr>
      else s\<lparr>beepLog := (roundNo s, Some (toneSamples s)) # beepLog s\<rparr>)"

text \<open>Any of the left, right or middle button went down.\<close>

definition buttonDown :: "RAWMOUSE \<Rightarrow> bool" where
  "buttonDown mouse \<longleftrightarrow>
     usButtonFlags mouse AND RI_MOUSE_LEFT_BUTTON_DOWN \<noteq> 0 \<or>
     usButtonFlags mouse AND RI_MOUSE_RIGHT_BUTTON_DOWN \<noteq> 0 \<or>
     usButtonFlags mouse AND RI_MOUSE_MIDDLE_BUTTON_DOWN \<noteq> 0"

text \<open>
  \<^verbatim>\<open>ProcessRawInput\<close>. The argument is what \<^verbatim>\<open>GetRawInputData\<close> delivers: \<open>None\<close> when
  it reports size 0 or fails.
\<close>

definition ProcessRawInput :: "RAWINPUT option \<Rightarrow> AppState \<Rightarrow> AppState option" where
  "ProcessRawInput lParam s =
     (case lParam of
        None \<Rightarrow> Some s
      | Some raw \<Rightarrow>
          (case data raw of
             RIM_TYPEMOUSE mouse \<Rightarrow>
               if \<not> buttonDown mouse then Some s
               else
                 (let (now, s1) = Clock_now s
                  in if state s1 = Waiting then Some (s1\<lparr>state := TooEarly\<rparr>)
                     else if state s1 = Flashing then
                       (let reactionMs = duration_ms now (flashStartTime s1);
                            s2 = s1\<lparr>lastReactionTime := reactionMs\<rparr>;
                            s3 = s2\<lparr>reactionTimes := reactionMs # reactionTimes s2\<rparr>;
                            s4 = (if length (reactionTimes s3) > MAX_LOG_ENTRIES
                                  then s3\<lparr>reactionTimes := butlast (reactionTimes s3)\<rparr>
                                  else s3)
                        in map_option StartNewRound (UpdateStats s4))
                     else if state s1 = TooEarly then Some (StartNewRound s1)
                     else Some s1)
           | _ \<Rightarrow> Some s))"

text \<open>The clearing done by the SPACE and F1 handlers.\<close>

definition clear_results :: "AppState \<Rightarrow> AppState" where
  "clear_results s =
     s\<lparr>reactionTimes := [], averageTime := 0, bestTime := 0, lastReactionTime := 0\<rparr>"

definition WndProc :: "MSG \<Rightarrow> AppState \<Rightarrow> AppState option" where
  "WndProc msg s =
     (case msg of
        WM_INPUT lParam \<Rightarrow> ProcessRawInput lParam s
      | WM_KEYDOWN wParam \<Rightarrow>
          if wParam = VK_ESCAPE then Some (s\<lparr>running := False\<rparr>)
          else if wParam = VK_SPACE then Some (StartNewRound (clear_results s))
          else if wParam = VK_F1 then
            Some (StartNewRound (clear_results (s\<lparr>audioMode := \<not> audioMode s\<rparr>)))
          else Some s
      | WM_SYSKEYDOWN wParam \<Rightarrow> Some s
      | WM_DESTROY \<Rightarrow> Some (s\<lparr>running := False\<rparr>)
      | WM_OTHER \<Rightarrow> Some s)"

text \<open>
  The state update at the head of \<^verbatim>\<open>Render\<close>; the drawing that follows only reads the
  state. \<open>getBufferOk\<close> is passed on to \<^verbatim>\<open>PlayBeepWASAPI\<close>.
\<close>

definition Render :: "bool \<Rightarrow> AppState \<Rightarrow> AppState" where
  "Render getBufferOk s =
     (let (now, s1) = Clock_now s
      in if state s1 = Waiting then
           (let elapsed = duration_ms now (roundStartTime s1)
            in if elapsed \<ge> targetDelayMs s1 then
                 (let s2 = s1\<lparr>state := Flashing\<rparr>;
                      (t, s3) = Clock_now s2;
                      s4 = s3\<lparr>flashStartTime := t\<rparr>
                  in if audioMode s4 \<and> \<not> beepPlayed s4
                     then PlayBeepWASAPI getBufferOk (s4\<lparr>beepPlayed := True\<rparr>)
                     else s4)
               else s1)
         else s1)"

text \<open>
  The main loop of \<^verbatim>\<open>wWinMain\<close> alternates between draining the message queue and one
  call of \<^verbatim>\<open>Render\<close>. A run of the program is a list of events, each a dispatched
  message or a frame; \<open>run\<close> executes them in order. Any interleaving is allowed, which
  covers every order the loop can produce.
\<close>

datatype event = Message MSG | Frame bool

definition step :: "event \<Rightarrow> AppState \<Rightarrow> AppState option" where
  "step e s = (case e of Message msg \<Rightarrow> WndProc msg s | Frame ok \<Rightarrow> Some (Render ok s))"

fun run :: "event list \<Rightarrow> AppState \<Rightarrow> AppState option" where
  "run [] s = Some s"
| "run (e # es) s = (case step e s of None \<Rightarrow> None | Some s' \<Rightarrow> run es s')"

text \<open>
  The state in which \<^verbatim>\<open>wWinMain\<close> enters the loop: the member initialisers of
  \<^verbatim>\<open>AppState\<close>, the outcome of \<^verbatim>\<open>InitWASAPI\<close> (format, buffer size, success), then
  \<^verbatim>\<open>StartNewRound\<close>. The clock and the generator are the environment's.
\<close>

definition initial :: "int stream \<Rightarrow> real stream \<Rightarrow> WAVEFORMATEX \<Rightarrow> 32 word \<Rightarrow> bool \<Rightarrow> AppState" where
  "initial clk gen fmt frames audioOk =
     StartNewRound
       \<lparr>state = Waiting, roundStartTime = 0, flashStartTime = 0, targetDelayMs = 0,
        reactionTimes = [], lastReactionTime = 0, averageTime = 0, bestTime = 0,
        rng = gen, running = True, audioMode = False, beepPlayed = False,
        audioFormat = fmt, audioBufferFrames = frames, audioInitialized = audioOk,
        clock = clk, roundNo = 0, beepLog = []\<rparr>"

text \<open>
  A clock is monotonic when no reading is smaller than the one before it.
\<close>

definition ascending :: "int stream \<Rightarrow> bool" where
  "ascending c \<longleftrightarrow> (\<forall>i. c !! i \<le> c !! Suc i)"

section \<open>The latency tester (main.cpp)\<close>

text \<open>
  \<^verbatim>\<open>main.cpp\<close> declares its own \<^verbatim>\<open>AppState\<close>, \<^verbatim>\<open>MAX_LOG_ENTRIES\<close>, \<^verbatim>\<open>ProcessRawInput\<close>,
  \<^verbatim>\<open>WndProc\<close> and \<^verbatim>\<open>Render\<close>. Here they carry the suffix \<open>_main\<close>, and so do the
  fields whose names the two structs share.
\<close>

definition MAX_LOG_ENTRIES_main :: nat where "MAX_LOG_ENTRIES_main = 30"

record AppState_main =
  isFlashing :: bool
  flashStartTime_main :: int
  flashDurationMs :: real
  appStartTime :: int
  lastEventTimeMs :: real
  lastInputText :: string
  lastDeviceText :: string
  lastFrameTime :: int
  frameTimeMs :: real
  fps :: real
  smoothedFrameTimeMs :: real
  smoothedFps :: real
  enableMouseButtons :: bool
  enableKeyboard :: bool
  enableMouseDelta :: bool
  enableLog :: bool
  enableUpEvents :: bool
  enableMouseHz :: bool
  enableOverlay :: bool
  mouseDeltaTimes :: "int list"
  mouseHz :: real
  logEntries :: "string list"
  running_main :: bool
  clock_main :: "int stream"

text \<open>
  The Win32 and C library calls whose results depend on the machine are parameters:
  the device name of a handle, the name of a key, and the text that \<^verbatim>\<open>swprintf_s\<close>
  produces for the time stamp and the delta of a log line.
\<close>

record Win32 =
  GetRawInputDeviceInfoW :: "nat \<Rightarrow> string"
  GetKeyNameTextW :: "32 word \<Rightarrow> string"
  swprintf_time :: "real \<Rightarrow> real \<Rightarrow> string"

definition Clock_now_main :: "AppState_main \<Rightarrow> int \<times> AppState_main" where
  "Clock_now_main s = (shd (clock_main s), s\<lparr>clock_main := stl (clock_main s)\<rparr>)"

text \<open>\<^verbatim>\<open>std::to_wstring\<close> on an integer: its decimal digits, with a sign when negative.\<close>

fun digits :: "nat \<Rightarrow> string" where
  "digits n = (if n < 10 then [char_of (48 + n)] else digits (n div 10) @ [char_of (48 + n mod 10)])"

declare digits.simps [simp del]

definition to_wstring :: "int \<Rightarrow> string" where
  "to_wstring i = (if i < 0 then CHR ''-'' # digits (nat (- i)) else digits (nat i))"

text \<open>
  \<^verbatim>\<open>std::wstring::rfind(c, pos)\<close>: the last index not beyond \<open>pos\<close> that holds \<open>c\<close>;
  \<open>None\<close> is \<^verbatim>\<open>npos\<close>. \<^verbatim>\<open>substr(pos, n)\<close> takes \<open>n\<close> characters from index \<open>pos\<close>.
\<close>

definition rfind_from :: "'a \<Rightarrow> 'a list \<Rightarrow> nat \<Rightarrow> nat option" where
  "rfind_from c xs pos =
     (case filter (\<lambda>i. xs ! i = c) (rev [0..<min (length xs) (Suc pos)]) of
        [] \<Rightarrow> None
      | i # _ \<Rightarrow> Some i)"

definition rfind :: "'a \<Rightarrow> 'a list \<Rightarrow> nat option" where
  "rfind c xs = rfind_from c xs (length xs)"

definition substr :: "'a list \<Rightarrow> nat \<Rightarrow> nat \<Rightarrow> 'a list" where
  "substr xs pos n = take n (drop pos xs)"

text \<open>The part of the device name between its last two \<^verbatim>\<open>#\<close> characters.\<close>

definition device_part :: "string \<Rightarrow> string" where
  "device_part deviceName =
     (case rfind CHR ''#'' deviceName of
        None \<Rightarrow> deviceName
      | Some lastSlash \<Rightarrow>
          if lastSlash > 0 then
            (case rfind_from CHR ''#'' deviceName (lastSlash - 1) of
               None \<Rightarrow> deviceName
             | Some prevSlash \<Rightarrow> substr deviceName (prevSlash + 1) (lastSlash - prevSlash - 1))
          else deviceName)"

definition TriggerFlash :: "Win32 \<Rightarrow> string \<Rightarrow> string \<Rightarrow> AppState_main \<Rightarrow> AppState_main" where
  "TriggerFlash W inputInfo deviceInfo s =
     (let (now, s1) = Clock_now_main s;
          s2 = s1\<lparr>isFlashing := True, flashStartTime_main := now,
                  lastInputText := inputInfo, lastDeviceText := deviceInfo\<rparr>
      in if enableLog s2 then
           (let currentTimeMs = duration_ms now (appStartTime s2);
                deltaMs = currentTimeMs - lastEventTimeMs s2;
                timeStr = swprintf_time W currentTimeMs deltaMs;
                logEntry = timeStr @ '' | '' @ inputInfo @ '' | '' @ deviceInfo;
                s3 = s2\<lparr>logEntries := logEntry # logEntries s2\<rparr>;
                s4 = (if length (logEntries s3) > MAX_LOG_ENTRIES_main
                      then s3\<lparr>logEntries := butlast (logEntries s3)\<rparr>
                      else s3)
            in s4\<lparr>lastEventTimeMs := currentTimeMs\<rparr>)
         else s2)"

text \<open>
  The chain that names a mouse event in \<^verbatim>\<open>ProcessRawInput\<close>; \<open>None\<close> where the source
  returns without calling \<^verbatim>\<open>TriggerFlash\<close>.
\<close>

definition mouse_inputInfo :: "bool \<Rightarrow> RAWMOUSE \<Rightarrow> string option" where
  "mouse_inputInfo upEvents mouse =
     (let f = usButtonFlags mouse in
      if f AND RI_MOUSE_LEFT_BUTTON_DOWN \<noteq> 0 then Some ''Left Click DOWN''
      else if f AND RI_MOUSE_LEFT_BUTTON_UP \<noteq> 0 then
        (if \<not> upEvents then None else Some ''Left Click UP'')
      else if f AND RI_MOUSE_RIGHT_BUTTON_DOWN \<noteq> 0 then Some ''Right Click DOWN''
      else if f AND RI_MOUSE_RIGHT_BUTTON_UP \<noteq> 0 then
        (if \<not> upEvents then None else Some ''Right Click UP'')
      else if f AND RI_MOUSE_MIDDLE_BUTTON_DOWN \<noteq> 0 then Some ''Middle Click DOWN''
      else if f AND RI_MOUSE_MIDDLE_BUTTON_UP \<noteq> 0 then
        (if \<not> upEvents then None else Some ''Middle Click UP'')
      else if f AND RI_MOUSE_BUTTON_4_DOWN \<noteq> 0 then Some ''Button 4 DOWN''
      else if f AND RI_MOUSE_BUTTON_4_UP \<noteq> 0 then
        (if \<not> upEvents then None else Some ''Button 4 UP'')
      else if f AND RI_MOUSE_BUTTON_5_DOWN \<noteq> 0 then Some ''Button 5 DOWN''
      else if f AND RI_MOUSE_BUTTON_5_UP \<noteq> 0 then
        (if \<not> upEvents then None else Some ''Button 5 UP'')
      else if f AND RI_MOUSE_WHEEL \<noteq> 0 then
        Some (''Wheel: '' @ to_wstring (sint (usButtonData mouse)))
      else if lLastX mouse \<noteq> 0 \<or> lLastY mouse \<noteq> 0 then
        Some (''Move: dX='' @ to_wstring (sint (lLastX mouse)) @
              '' dY='' @ to_wstring (sint (lLastY mouse)))
      else None)"

definition keyboard_inputInfo :: "Win32 \<Rightarrow> RAWKEYBOARD \<Rightarrow> string" where
  "keyboard_inputInfo W kb =
     (let isDown = (Flags kb AND RI_KEY_BREAK = 0);
          vk = uint (VKey kb);
          sc = uint (MakeCode kb);
          scanCode = (ucast (MakeCode kb) :: 32 word);
          scanCode' = (if Flags kb AND RI_KEY_E0 \<noteq> 0 then scanCode OR 0x100 else scanCode);
          keyName = GetKeyNameTextW W (push_bit 16 scanCode')
      in keyName @ '' (VK='' @ to_wstring vk @ '' SC='' @ to_wstring sc @ '') '' @
         (if isDown then ''DOWN'' else ''UP''))"

definition ProcessRawInput_main :: "Win32 \<Rightarrow> RAWINPUT option \<Rightarrow> AppState_main \<Rightarrow> AppState_main" where
  "ProcessRawInput_main W lParam s =
     (case lParam of
        None \<Rightarrow> s
      | Some raw \<Rightarrow>
          (let deviceName = device_part (GetRawInputDeviceInfoW W (hDevice raw))
           in case data raw of
                RIM_TYPEMOUSE mouse \<Rightarrow>
                  (let isButtonEvent = (usButtonFlags mouse \<noteq> 0);
                       isDeltaEvent = (lLastX mouse \<noteq> 0 \<or> lLastY mouse \<noteq> 0);
                       s1 = (if isDeltaEvent \<and> enableMouseHz s
                             then (let (t, s') = Clock_now_main s
                                   in s'\<lparr>mouseDeltaTimes := mouseDeltaTimes s' @ [t]\<rparr>)
                             else s)
                   in if isButtonEvent \<and> \<not> enableMouseButtons s1 then s1
                      else if isDeltaEvent \<and> \<not> isButtonEvent \<and> \<not> enableMouseDelta s1 then s1
                      else case mouse_inputInfo (enableUpEvents s1) mouse of
                             None \<Rightarrow> s1
                           | Some inputInfo \<Rightarrow>
                               TriggerFlash W inputInfo (''MOUSE'' @ '': '' @ deviceName) s1)
              | RIM_TYPEKEYBOARD kb \<Rightarrow>
                  if \<not> enableKeyboard s then s
                  else if \<not> (Flags kb AND RI_KEY_BREAK = 0) \<and> \<not> enableUpEvents s then s
                  else TriggerFlash W (keyboard_inputInfo W kb)
                         (''KEYBOARD'' @ '': '' @ deviceName) s
              | RIM_TYPEHID \<Rightarrow> s))"

definition WndProc_main :: "Win32 \<Rightarrow> MSG \<Rightarrow> AppState_main \<Rightarrow> AppState_main" where
  "WndProc_main W msg s =
     (case msg of
        WM_INPUT lParam \<Rightarrow> ProcessRawInput_main W lParam s
      | WM_KEYDOWN wParam \<Rightarrow>
          if wParam = VK_ESCAPE then s\<lparr>running_main := False\<rparr>
          else if wParam = VK_F1 then s\<lparr>enableMouseButtons := \<not> enableMouseButtons s\<rparr>
          else if wParam = VK_F2 then s\<lparr>enableKeyboard := \<not> enableKeyboard s\<rparr>
          else if wParam = VK_F3 then s\<lparr>enableMouseDelta := \<not> enableMouseDelta s\<rparr>
          else if wParam = VK_F4 then
            (let s1 = s\<lparr>enableLog := \<not> enableLog s\<rparr>
             in if \<not> enableLog s1 then s1\<lparr>logEntries := []\<rparr> else s1)
          else if wParam = VK_F5 then s\<lparr>flashDurationMs := flashDurationMs s + 10\<rparr>
          else if wParam = VK_F6 then
            s\<lparr>flashDurationMs := (if flashDurationMs s > 10 then flashDurationMs s - 10 else 10)\<rparr>
          else if wParam = VK_F7 then s\<lparr>enableUpEvents := \<not> enableUpEvents s\<rparr>
          else if wParam = VK_F8 then
            (let s1 = s\<lparr>enableMouseHz := \<not> enableMouseHz s\<rparr>
             in if \<not> enableMouseHz s1 then s1\<lparr>mouseDeltaTimes := [], mouseHz := 0\<rparr> else s1)
          else if wParam = VK_F9 then s\<lparr>enableOverlay := \<not> enableOverlay s\<rparr>
          else s
      | WM_SYSKEYDOWN wParam \<Rightarrow> s
      | WM_DESTROY \<Rightarrow> s\<lparr>running_main := False\<rparr>
      | WM_OTHER \<Rightarrow> s)"

text \<open>
  The eviction loop of \<^verbatim>\<open>Render\<close>: while the vector is not empty and its front is older
  than the limit, erase the front.
\<close>

fun evict_old :: "int \<Rightarrow> int list \<Rightarrow> int list" where
  "evict_old cutoff [] = []"
| "evict_old cutoff (t # ts) = (if t < cutoff then evict_old cutoff ts else t # ts)"

text \<open>The check that ends a flash, the same in both paths of \<^verbatim>\<open>Render\<close>.\<close>

definition end_flash :: "AppState_main \<Rightarrow> AppState_main" where
  "end_flash s =
     (if isFlashing s then
        (let (t, s1) = Clock_now_main s;
             elapsed = duration_cast_ms t (flashStartTime_main s1)
         in if real_of_int elapsed \<ge> flashDurationMs s1 then s1\<lparr>isFlashing := False\<rparr> else s1)
      else s)"

definition Render_main :: "AppState_main \<Rightarrow> AppState_main" where
  "Render_main s =
     (if \<not> enableOverlay s then end_flash s
      else
        (let (now, s1) = Clock_now_main s;
             s2 = s1\<lparr>frameTimeMs := duration_ms now (lastFrameTime s1)\<rparr>;
             s3 = s2\<lparr>lastFrameTime := now\<rparr>;
             s4 = s3\<lparr>fps := (if frameTimeMs s3 > 0 then 1000 / frameTimeMs s3 else 0)\<rparr>;
             smoothing = (9 / 10 :: real);
             s5 = s4\<lparr>smoothedFrameTimeMs :=
                       smoothedFrameTimeMs s4 * smoothing + frameTimeMs s4 * (1 - smoothing)\<rparr>;
             s6 = s5\<lparr>smoothedFps := smoothedFps s5 * smoothing + fps s5 * (1 - smoothing)\<rparr>;
             s7 = (if enableMouseHz s6 then
                     (let oneSecondAgo = now - 1000000000;
                          s' = s6\<lparr>mouseDeltaTimes := evict_old oneSecondAgo (mouseDeltaTimes s6)\<rparr>
                      in s'\<lparr>mouseHz := real (length (mouseDeltaTimes s'))\<rparr>)
                   else s6)
         in end_flash s7))"

datatype event_main = Message_main MSG | Frame_main

definition step_main :: "Win32 \<Rightarrow> event_main \<Rightarrow> AppState_main \<Rightarrow> AppState_main" where
  "step_main W e s = (case e of Message_main msg \<Rightarrow> WndProc_main W msg s | Frame_main \<Rightarrow> Render_main s)"

fun run_main :: "Win32 \<Rightarrow> event_main list \<Rightarrow> AppState_main \<Rightarrow> AppState_main" where
  "run_main W [] s = s"
| "run_main W (e # es) s = run_main W es (step_main W e s)"

text \<open>
  The member initialisers of \<^verbatim>\<open>AppState\<close> in \<^verbatim>\<open>main.cpp\<close>: \<^verbatim>\<open>appStartTime\<close> and
  \<^verbatim>\<open>lastFrameTime\<close> each read the clock, in declaration order.
\<close>

definition initial_main :: "int stream \<Rightarrow> AppState_main" where
  "initial_main clk =
     \<lparr>isFlashing = False, flashStartTime_main = 0, flashDurationMs = 50,
      appStartTime = shd clk, lastEventTimeMs = 0,
      lastInputText = ''Waiting for input...'', lastDeviceText = [],
      lastFrameTime = shd (stl clk), frameTimeMs = 0, fps = 0,
      smoothedFrameTimeMs = 0, smoothedFps = 0,
      enableMouseButtons = True, enableKeyboard = True, enableMouseDelta = True,
      enableLog = False, enableUpEvents = True, enableMouseHz = False,
      enableOverlay = True, mouseDeltaTimes = [], mouseHz = 0, logEntries = [],
      running_main = True, clock_main = stl (stl clk)\<rparr>"

section \<open>Example inputs\<close>

text \<open>
  A clock that advances by half a second at every reading, a generator that always
  draws 1500 ms, a 48 kHz stereo format with a buffer of 144 frames, and a press of
  the left mouse button.
\<close>

definition example_clock :: "int stream" where
  "example_clock = siterate (\<lambda>t. t + 500000000) 0"

definition example_format :: WAVEFORMATEX where
  "example_format = \<lparr>nSamplesPerSec = 48000, nChannels = 2, wBitsPerSample = 16\<rparr>"

definition example_start :: AppState where
  "example_start = initial example_clock (sconst 1500) example_format 144 True"

definition left_down :: RAWMOUSE where
  "left_down = \<lparr>usButtonFlags = RI_MOUSE_LEFT_BUTTON_DOWN, usButtonData = 0, lLastX = 0, lLastY = 0\<rparr>"

definition click :: RAWINPUT where
  "click = \<lparr>hDevice = 1, data = RIM_TYPEMOUSE left_down\<rparr>"

text \<open>
  The state after three frames from \<open>example_start\<close>: the third frame is 1500 ms after
  the start of the round and begins the flash; the onset is read at 2000 ms. The
  trial adds a press, which is stamped 2500 ms.
\<close>

definition example_flashing :: AppState where
  "example_flashing = Render True (Render True (Render True example_start))"

definition example_trial :: "event list" where
  "example_trial = [Frame True, Frame True, Frame True, Message (WM_INPUT (Some click))]"

text \<open>
  Audio mode: F1 switches the mode and starts round 2 at 500 ms; the third frame
  after it begins the stimulus and plays the tone.
\<close>

definition example_audio_start :: AppState where
  "example_audio_start = StartNewRound (clear_results (example_start\<lparr>audioMode := True\<rparr>))"

definition example_audio_waiting :: AppState where
  "example_audio_waiting = Render True (Render True example_audio_start)"

definition example_audio_flashing :: AppState where
  "example_audio_flashing = Render True (Render True (Render True example_audio_waiting))"

definition example_audio_prefix :: "event list" where
  "example_audio_prefix = [Message (WM_KEYDOWN VK_F1), Frame True, Frame True]"

definition example_audio :: "event list" where
  "example_audio = example_audio_prefix @ [Frame True, Frame True, Frame True]"

text \<open>
  For the latency tester: a machine description, a motion of the mouse with no button
  flag, and a run that turns rate tracking on (F8), turns the display of motion off
  (F3) and then receives four motions, stamped 1000, 1500, 2000 and 2500 ms.
\<close>

definition example_win32 :: Win32 where
  "example_win32 =
     \<lparr>GetRawInputDeviceInfoW = (\<lambda>h. ''HID#VID_046D#7&ab'' @ [CHR 0x00]),
      GetKeyNameTextW = (\<lambda>l. ''A''),
      swprintf_time = (\<lambda>t d. ''t'')\<rparr>"

definition example_motion :: RAWINPUT where
  "example_motion =
     \<lparr>hDevice = 1,
      data = RIM_TYPEMOUSE \<lparr>usButtonFlags = 0, usButtonData = 0, lLastX = 3, lLastY = - 1\<rparr>\<rparr>"

definition example_rate_events :: "event_main list" where
  "example_rate_events =
     [Message_main (WM_KEYDOWN VK_F8), Message_main (WM_KEYDOWN VK_F3),
      Message_main (WM_INPUT (Some example_motion)), Message_main (WM_INPUT (Some example_motion)),
      Message_main (WM_INPUT (Some example_motion)), Message_main (WM_INPUT (Some example_motion))]"

text \<open>The latency tester after F8 and F3, before the first motion.\<close>

definition example_rate_start :: AppState_main where
  "example_rate_start =
     (initial_main example_clock)\<lparr>enableMouseHz := True, enableMouseDelta := False\<rparr>"

text \<open>A state of the latency tester with logging on and a full log.\<close>

definition example_full_log :: AppState_main where
  "example_full_log =
     (initial_main example_clock)
       \<lparr>enableLog := True,
        logEntries :=
          [''30'', ''29'', ''28'', ''27'', ''26'', ''25'', ''24'', ''23'', ''22'', ''21'',
           ''20'', ''19'', ''18'', ''17'', ''16'', ''15'', ''14'', ''13'', ''12'', ''11'',
           ''10'', ''9'', ''8'', ''7'', ''6'', ''5'', ''4'', ''3'', ''2'', ''1'']\<rparr>"

text \<open>A flashing state of the reaction tester with a full sample vector.\<close>

definition example_full_samples :: AppState where
  "example_full_samples =
     example_flashing
       \<lparr>reactionTimes :=
          [250, 249, 248, 247, 246, 245, 244, 243, 242, 241, 240, 239, 238, 237, 236,
           235, 234, 233, 232, 231, 230, 229, 228, 227, 226]\<rparr>"

section \<open>Properties of the reaction time tester\<close>

subsection \<open>Single steps\<close>

lemma StartNewRound_simps [simp]:
  "state (StartNewRound s) = Waiting"
  "roundStartTime (StartNewRound s) = shd (clock s)"
  "flashStartTime (StartNewRound s) = flashStartTime s"
  "targetDelayMs (StartNewRound s) = shd (rng s)"
  "reactionTimes (StartNewRound s) = reactionTimes s"
  "lastReactionTime (StartNewRound s) = lastReactionTime s"
  "averageTime (StartNewRound s) = averageTime s"
  "bestTime (StartNewRound s) = bestTime s"
  "rng (StartNewRound s) = stl (rng s)"
  "running (StartNewRound s) = running s"
  "audioMode (StartNewRound s) = audioMode s"
  "beepPlayed (StartNewRound s) = False"
  "audioFormat (StartNewRound s) = audioFormat s"
  "audioBufferFrames (StartNewRound s) = audioBufferFrames s"
  "audioInitialized (StartNewRound s) = audioInitialized s"
  "clock (StartNewRound s) = stl (clock s)"
  "roundNo (StartNewRound s) = Suc (roundNo s)"
  "beepLog (StartNewRound s) = beepLog s"
  by (simp_all add: StartNewRound_def Clock_now_def GetRandomDelay_def)

lemma fold_stats_step:
  "fold stats_step xs (a, b) = (a + sum_list xs, fold min xs b)"
  by (induction xs arbitrary: a b) (auto simp: stats_step_def min_def)

lemma fold_min_hd: "xs \<noteq> [] \<Longrightarrow> fold min xs (xs ! 0) = Min (set xs)"
proof -
  assume "xs \<noteq> []"
  then obtain y ys where xs: "xs = y # ys" by (cases xs) auto
  have "fold min xs (xs ! 0) = fold min ys y" by (simp add: xs)
  also have "\<dots> = Min (set (y # ys))" by (rule Min.set_eq_fold [symmetric])
  finally show ?thesis by (simp add: xs)
qed

lemma UpdateStats_nonempty:
  "reactionTimes s \<noteq> [] \<Longrightarrow>
   UpdateStats s = Some (s\<lparr>averageTime := sum_list (reactionTimes s) / real (length (reactionTimes s)),
                          bestTime := Min (set (reactionTimes s))\<rparr>)"
  by (simp add: UpdateStats_def vec_at_def div_size_def fold_stats_step fold_min_hd)


lemma ProcessRawInput_Waiting_eq:
  assumes "data raw = RIM_TYPEMOUSE mouse" "buttonDown mouse" "state s = Waiting"
  shows "ProcessRawInput (Some raw) s = Some (s\<lparr>clock := stl (clock s), state := TooEarly\<rparr>)"
  using assms by (simp add: ProcessRawInput_def Clock_now_def)

lemma ProcessRawInput_TooEarly_eq:
  assumes "data raw = RIM_TYPEMOUSE mouse" "buttonDown mouse" "state s = TooEarly"
  shows "ProcessRawInput (Some raw) s = Some (StartNewRound (s\<lparr>clock := stl (clock s)\<rparr>))"
  using assms by (simp add: ProcessRawInput_def Clock_now_def)

lemma ProcessRawInput_Flashing_eq:
  assumes "data raw = RIM_TYPEMOUSE mouse" "buttonDown mouse" "state s = Flashing"
  shows "ProcessRawInput (Some raw) s =
     (let r = duration_ms (shd (clock s)) (flashStartTime s);
          xs = r # (if length (reactionTimes s) < MAX_LOG_ENTRIES then reactionTimes s
                    else butlast (reactionTimes s))
      in Some (StartNewRound (s\<lparr>clock := stl (clock s), lastReactionTime := r,
            reactionTimes := xs, averageTime := sum_list xs / real (length xs),
            bestTime := Min (set xs)\<rparr>)))"
proof -
  let ?r = "duration_ms (shd (clock s)) (flashStartTime s)"
  let ?xs = "?r # (if length (reactionTimes s) < MAX_LOG_ENTRIES then reactionTimes s
                    else butlast (reactionTimes s))"
  let ?s4 = "s\<lparr>clock := stl (clock s), lastReactionTime := ?r, reactionTimes := ?xs\<rparr>"
  have ne: "reactionTimes ?s4 \<noteq> []" by simp
  have "ProcessRawInput (Some raw) s = map_option StartNewRound (UpdateStats ?s4)"
    using assms
    by (cases "reactionTimes s")
       (auto simp: ProcessRawInput_def Clock_now_def Let_def MAX_LOG_ENTRIES_def)
  also have "\<dots> = Some (StartNewRound (?s4\<lparr>averageTime := sum_list (reactionTimes ?s4) / real (length (reactionTimes ?s4)),
                          bestTime := Min (set (reactionTimes ?s4))\<rparr>))"
    by (simp only: UpdateStats_nonempty [OF ne] option.map)
  finally show ?thesis by (simp add: Let_def)
qed

lemma example_start_simps [simp]:
  "state example_start = Waiting"
  "roundStartTime example_start = 0"
  "flashStartTime example_start = 0"
  "targetDelayMs example_start = 1500"
  "reactionTimes example_start = []"
  "lastReactionTime example_start = 0"
  "averageTime example_start = 0"
  "bestTime example_start = 0"
  "rng example_start = sconst 1500"
  "audioMode example_start = False"
  "beepPlayed example_start = False"
  "clock example_start = siterate (\<lambda>t. t + 500000000) 500000000"
  "roundNo example_start = 1"
  "beepLog example_start = []"
  by (simp_all add: example_start_def initial_def example_clock_def)

lemma click_simps [simp]: "data click = RIM_TYPEMOUSE left_down" "buttonDown left_down"
  by (simp_all add: click_def left_down_def buttonDown_def RI_MOUSE_LEFT_BUTTON_DOWN_def)

text \<open>
  Claim C10. \<^verbatim>\<open>UpdateStats\<close> never reads outside the sample vector and never divides
  by a zero size, whatever the state; when the vector is empty it returns at once and
  leaves the state, with \<open>averageTime\<close> and \<open>bestTime\<close>, as it was.
\<close>

theorem UpdateStats_empty_noop:
  "UpdateStats s \<noteq> None \<and> (reactionTimes s = [] \<longrightarrow> UpdateStats s = Some s)"
proof (cases "reactionTimes s = []")
  case True
  then show ?thesis by (simp add: UpdateStats_def)
next
  case False
  then show ?thesis by (simp add: UpdateStats_nonempty)
qed

theorem UpdateStats_empty_noop_witness:
  "reactionTimes example_start = [] \<and> UpdateStats example_start = Some example_start"
  using UpdateStats_empty_noop [of example_start] by simp

text \<open>
  Claim C3. A press of a button while \<open>Waiting\<close> moves to \<open>TooEarly\<close> (the false
  start); a press while \<open>TooEarly\<close> moves back to \<open>Waiting\<close> and starts a new round,
  with a new start time and the next delay of the generator. Neither records a sample
  or changes the statistics.
\<close>

theorem false_start:
  assumes "data raw = RIM_TYPEMOUSE mouse" and "buttonDown mouse"
  shows "(state s = Waiting \<longrightarrow>
            (\<exists>s'. ProcessRawInput (Some raw) s = Some s' \<and> state s' = TooEarly \<and>
                  reactionTimes s' = reactionTimes s \<and> averageTime s' = averageTime s \<and>
                  bestTime s' = bestTime s \<and> lastReactionTime s' = lastReactionTime s \<and>
                  roundNo s' = roundNo s)) \<and>
         (state s = TooEarly \<longrightarrow>
            (\<exists>s'. ProcessRawInput (Some raw) s = Some s' \<and> state s' = Waiting \<and>
                  reactionTimes s' = reactionTimes s \<and> averageTime s' = averageTime s \<and>
                  bestTime s' = bestTime s \<and> lastReactionTime s' = lastReactionTime s \<and>
                  roundNo s' = Suc (roundNo s) \<and>
                  roundStartTime s' = shd (stl (clock s)) \<and>
                  targetDelayMs s' = shd (rng s) \<and> rng s' = stl (rng s) \<and>
                  beepPlayed s' = False))"
proof (intro conjI impI)
  assume "state s = Waiting"
  from ProcessRawInput_Waiting_eq [OF assms this]
  show "\<exists>s'. ProcessRawInput (Some raw) s = Some s' \<and> state s' = TooEarly \<and>
                  reactionTimes s' = reactionTimes s \<and> averageTime s' = averageTime s \<and>
                  bestTime s' = bestTime s \<and> lastReactionTime s' = lastReactionTime s \<and>
                  roundNo s' = roundNo s"
    by simp
next
  assume "state s = TooEarly"
  from ProcessRawInput_TooEarly_eq [OF assms this]
  show "\<exists>s'. ProcessRawInput (Some raw) s = Some s' \<and> state s' = Waiting \<and>
                  reactionTimes s' = reactionTimes s \<and> averageTime s' = averageTime s \<and>
                  bestTime s' = bestTime s \<and> lastReactionTime s' = lastReactionTime s \<and>
                  roundNo s' = Suc (roundNo s) \<and>
                  roundStartTime s' = shd (stl (clock s)) \<and>
                  targetDelayMs s' = shd (rng s) \<and> rng s' = stl (rng s) \<and>
                  beepPlayed s' = False"
    by simp
qed

theorem false_start_witness:
  "data click = RIM_TYPEMOUSE left_down \<and> buttonDown left_down \<and>
   state example_start = Waiting \<and>
   (\<exists>s'. ProcessRawInput (Some click) example_start = Some s' \<and> state s' = TooEarly \<and>
         reactionTimes s' = [] \<and> averageTime s' = 0 \<and> bestTime s' = 0) \<and>
   state (example_start\<lparr>state := TooEarly\<rparr>) = TooEarly \<and>
   (\<exists>s'. ProcessRawInput (Some click) (example_start\<lparr>state := TooEarly\<rparr>) = Some s' \<and>
         state s' = Waiting \<and> reactionTimes s' = [] \<and> averageTime s' = 0 \<and> bestTime s' = 0 \<and>
         roundNo s' = 2 \<and> roundStartTime s' = 1000000000 \<and> targetDelayMs s' = 1500)"
  using false_start [of click left_down example_start]
        false_start [of click left_down "example_start\<lparr>state := TooEarly\<rparr>"]
  by (auto simp: numeral_2_eq_2)

subsection \<open>Runs\<close>

lemma run_invariant:
  assumes step: "\<And>e s s'. P s \<Longrightarrow> step e s = Some s' \<Longrightarrow> P s'"
    and "P s" and "run evs s = Some s'"
  shows "P s'"
  using assms(2,3)
proof (induction evs arbitrary: s)
  case Nil
  then show ?case by simp
next
  case (Cons e es)
  then show ?case by (auto split: option.splits intro: step)
qed

lemma UpdateStats_total: "\<exists>s'. UpdateStats s = Some s'"
  by (cases "reactionTimes s = []") (simp_all add: UpdateStats_nonempty, simp add: UpdateStats_def)

lemma ProcessRawInput_total: "\<exists>s'. ProcessRawInput l s = Some s'"
  by (auto simp: ProcessRawInput_def Let_def Clock_now_def UpdateStats_total
           split: option.splits RAWDATA.splits)

lemma step_total: "\<exists>s'. step e s = Some s'"
  by (auto simp: step_def WndProc_def ProcessRawInput_total split: event.splits MSG.splits)

lemma run_total: "run evs s \<noteq> None"
proof (induction evs arbitrary: s)
  case Nil
  then show ?case by simp
next
  case (Cons e es)
  have "step e s \<noteq> None" using step_total [of e s] by auto
  with Cons show ?case by (auto split: option.splits)
qed

lemma PlayBeepWASAPI_eq:
  "PlayBeepWASAPI ok s =
     s\<lparr>beepLog := (roundNo s, if audioInitialized s \<and> ok then Some (toneSamples s) else None)
                    # beepLog s\<rparr>"
  by (simp add: PlayBeepWASAPI_def)

lemma toneSamples_update [simp]:
  "toneSamples (s\<lparr>clock := c\<rparr>) = toneSamples s"
  "toneSamples (s\<lparr>state := st\<rparr>) = toneSamples s"
  "toneSamples (s\<lparr>flashStartTime := t\<rparr>) = toneSamples s"
  "toneSamples (s\<lparr>beepPlayed := b\<rparr>) = toneSamples s"
  by (simp_all add: toneSamples_def Let_def)

lemma Render_cases [consumes 0, case_names idle flash beep]:
  obtains
    (idle) "state s \<noteq> Waiting \<or> duration_ms (shd (clock s)) (roundStartTime s) < targetDelayMs s"
      "Render ok s = s\<lparr>clock := stl (clock s)\<rparr>"
  | (flash) "state s = Waiting" "targetDelayMs s \<le> duration_ms (shd (clock s)) (roundStartTime s)"
      "\<not> (audioMode s \<and> \<not> beepPlayed s)"
      "Render ok s = s\<lparr>clock := stl (stl (clock s)), state := Flashing,
                         flashStartTime := shd (stl (clock s))\<rparr>"
  | (beep) "state s = Waiting" "targetDelayMs s \<le> duration_ms (shd (clock s)) (roundStartTime s)"
      "audioMode s" "\<not> beepPlayed s"
      "Render ok s = s\<lparr>clock := stl (stl (clock s)), state := Flashing,
                         flashStartTime := shd (stl (clock s)), beepPlayed := True,
                         beepLog := (roundNo s, if audioInitialized s \<and> ok
                                                then Some (toneSamples s) else None) # beepLog s\<rparr>"
proof -
  consider "state s \<noteq> Waiting \<or> duration_ms (shd (clock s)) (roundStartTime s) < targetDelayMs s"
    | "state s = Waiting" "targetDelayMs s \<le> duration_ms (shd (clock s)) (roundStartTime s)"
      "\<not> (audioMode s \<and> \<not> beepPlayed s)"
    | "state s = Waiting" "targetDelayMs s \<le> duration_ms (shd (clock s)) (roundStartTime s)"
      "audioMode s" "\<not> beepPlayed s"
    by fastforce
  then show thesis
  proof cases
    case 1
    then have "Render ok s = s\<lparr>clock := stl (clock s)\<rparr>"
      by (auto simp: Render_def Clock_now_def)
    with 1 show ?thesis by (rule idle)
  next
    case 2
    then have "Render ok s = s\<lparr>clock := stl (stl (clock s)), state := Flashing,
                         flashStartTime := shd (stl (clock s))\<rparr>"
      by (auto simp: Render_def Clock_now_def)
    with 2 show ?thesis by (rule flash)
  next
    case 3
    then have "Render ok s = s\<lparr>clock := stl (stl (clock s)), state := Flashing,
                         flashStartTime := shd (stl (clock s)), beepPlayed := True,
                         beepLog := (roundNo s, if audioInitialized s \<and> ok
                                                then Some (toneSamples s) else None) # beepLog s\<rparr>"
      by (simp add: Render_def Clock_now_def PlayBeepWASAPI_eq Let_def)
    with 3 show ?thesis by (rule beep)
  qed
qed

lemma step_cases [consumes 1, case_names same quit space f1 early trial retry frame]:
  assumes "step e s = Some s'"
  obtains
    (same) "s' = s"
  | (quit) "s' = s\<lparr>running := False\<rparr>"
  | (space) "s' = StartNewRound (clear_results s)"
  | (f1) "s' = StartNewRound (clear_results (s\<lparr>audioMode := \<not> audioMode s\<rparr>))"
  | (early) "state s = Waiting" "s' = s\<lparr>clock := stl (clock s), state := TooEarly\<rparr>"
  | (trial) "state s = Flashing"
      "s' = (let r = duration_ms (shd (clock s)) (flashStartTime s);
                 xs = r # (if length (reactionTimes s) < MAX_LOG_ENTRIES then reactionTimes s
                           else butlast (reactionTimes s))
             in StartNewRound (s\<lparr>clock := stl (clock s), lastReactionTime := r,
                  reactionTimes := xs, averageTime := sum_list xs / real (length xs),
                  bestTime := Min (set xs)\<rparr>))"
  | (retry) "state s = TooEarly" "s' = StartNewRound (s\<lparr>clock := stl (clock s)\<rparr>)"
  | (frame) ok where "e = Frame ok" "s' = Render ok s"
proof (cases e)
  case (Frame ok)
  with assms have "s' = Render ok s" by (simp add: step_def)
  with Frame show ?thesis by (rule frame)
next
  case (Message msg)
  show ?thesis
  proof (cases msg)
    case (WM_INPUT l)
    with Message assms have pri: "ProcessRawInput l s = Some s'"
      by (simp add: step_def WndProc_def)
    show ?thesis
    proof (cases l)
      case None
      with pri have "s' = s" by (simp add: ProcessRawInput_def)
      then show ?thesis by (rule same)
    next
      case (Some raw)
      show ?thesis
      proof (cases "data raw")
        case (RIM_TYPEMOUSE mouse)
        show ?thesis
        proof (cases "buttonDown mouse")
          case False
          with pri Some RIM_TYPEMOUSE have "s' = s" by (simp add: ProcessRawInput_def)
          then show ?thesis by (rule same)
        next
          case True
          show ?thesis
          proof (cases "state s")
            case Waiting
            from ProcessRawInput_Waiting_eq [OF RIM_TYPEMOUSE True Waiting] pri Some
            have "s' = s\<lparr>clock := stl (clock s), state := TooEarly\<rparr>" by simp
            with Waiting show ?thesis by (rule early)
          next
            case Flashing
            from ProcessRawInput_Flashing_eq [OF RIM_TYPEMOUSE True Flashing] pri Some
            have "s' = (let r = duration_ms (shd (clock s)) (flashStartTime s);
                 xs = r # (if length (reactionTimes s) < MAX_LOG_ENTRIES then reactionTimes s
                           else butlast (reactionTimes s))
             in StartNewRound (s\<lparr>clock := stl (clock s), lastReactionTime := r,
                  reactionTimes := xs, averageTime := sum_list xs / real (length xs),
                  bestTime := Min (set xs)\<rparr>))" by (simp add: Let_def)
            with Flashing show ?thesis by (rule trial)
          next
            case TooEarly
            from ProcessRawInput_TooEarly_eq [OF RIM_TYPEMOUSE True TooEarly] pri Some
            have "s' = StartNewRound (s\<lparr>clock := stl (clock s)\<rparr>)" by simp
            with TooEarly show ?thesis by (rule retry)
          qed
        qed
      next
        case (RIM_TYPEKEYBOARD kb)
        with pri Some have "s' = s" by (simp add: ProcessRawInput_def)
        then show ?thesis by (rule same)
      next
        case RIM_TYPEHID
        with pri Some have "s' = s" by (simp add: ProcessRawInput_def)
        then show ?thesis by (rule same)
      qed
    qed
  next
    case (WM_KEYDOWN k)
    with Message assms
    consider "s' = s" | "s' = s\<lparr>running := False\<rparr>" | "s' = StartNewRound (clear_results s)"
      | "s' = StartNewRound (clear_results (s\<lparr>audioMode := \<not> audioMode s\<rparr>))"
      by (auto simp: step_def WndProc_def split: if_splits)
    then show ?thesis by cases (rule same quit space f1; assumption)+
  next
    case (WM_SYSKEYDOWN k)
    with Message assms have "s' = s" by (simp add: step_def WndProc_def)
    then show ?thesis by (rule same)
  next
    case WM_DESTROY
    with Message assms have "s' = s\<lparr>running := False\<rparr>" by (simp add: step_def WndProc_def)
    then show ?thesis by (rule quit)
  next
    case WM_OTHER
    with Message assms have "s' = s" by (simp add: step_def WndProc_def)
    then show ?thesis by (rule same)
  qed
qed

lemma example_flashing_simps [simp]:
  "state example_flashing = Flashing"
  "roundStartTime example_flashing = 0"
  "flashStartTime example_flashing = 2000000000"
  "targetDelayMs example_flashing = 1500"
  "reactionTimes example_flashing = []"
  "rng example_flashing = sconst 1500"
  "audioMode example_flashing = False"
  "clock example_flashing = siterate (\<lambda>t. t + 500000000) 2500000000"
  "roundNo example_flashing = 1"
  "beepLog example_flashing = []"
  by (simp_all add: example_flashing_def Render_def Clock_now_def duration_ms_def)

lemma run_example_trial:
  "run example_trial example_start =
     Some (StartNewRound (example_flashing\<lparr>clock := siterate (\<lambda>t. t + 500000000) 3000000000,
        lastReactionTime := 500, reactionTimes := [500], averageTime := 500, bestTime := 500\<rparr>))"
proof -
  have pri: "ProcessRawInput (Some click) example_flashing =
     Some (StartNewRound (example_flashing\<lparr>clock := siterate (\<lambda>t. t + 500000000) 3000000000,
        lastReactionTime := 500, reactionTimes := [500], averageTime := 500, bestTime := 500\<rparr>))"
    by (simp add: ProcessRawInput_Flashing_eq [of click left_down] MAX_LOG_ENTRIES_def duration_ms_def)
  show ?thesis
    by (simp add: example_trial_def step_def WndProc_def example_flashing_def [symmetric] pri)
qed

text \<open>
  Claim C1. A press of a button while \<open>Flashing\<close> returns to \<open>Waiting\<close>, records one
  sample, the time of the press minus the time of the stimulus onset in milliseconds,
  at the front of the sample vector (the last element leaves when the vector is
  full), and starts a new round: a new start time and the next delay of the
  generator, which advances.
\<close>

theorem click_while_Flashing:
  assumes "data raw = RIM_TYPEMOUSE mouse" and "buttonDown mouse" and "state s = Flashing"
  shows "\<exists>s'. ProcessRawInput (Some raw) s = Some s' \<and> state s' = Waiting \<and>
           lastReactionTime s' = duration_ms (shd (clock s)) (flashStartTime s) \<and>
           reactionTimes s' =
             duration_ms (shd (clock s)) (flashStartTime s) #
               (if length (reactionTimes s) < MAX_LOG_ENTRIES then reactionTimes s
                else butlast (reactionTimes s)) \<and>
           roundStartTime s' = shd (stl (clock s)) \<and>
           targetDelayMs s' = shd (rng s) \<and> rng s' = stl (rng s) \<and>
           beepPlayed s' = False \<and> roundNo s' = Suc (roundNo s)"
  by (simp add: ProcessRawInput_Flashing_eq [OF assms] Let_def)

theorem click_while_Flashing_witness:
  "data click = RIM_TYPEMOUSE left_down \<and> buttonDown left_down \<and>
   state example_flashing = Flashing \<and>
   (\<exists>s'. ProcessRawInput (Some click) example_flashing = Some s' \<and> state s' = Waiting \<and>
         lastReactionTime s' = 500 \<and> reactionTimes s' = [500] \<and>
         roundStartTime s' = 3000000000 \<and> targetDelayMs s' = 1500 \<and> beepPlayed s' = False)"
  using click_while_Flashing [of click left_down example_flashing]
  by (auto simp: duration_ms_def MAX_LOG_ENTRIES_def)

lemma stats_invariant:
  assumes "run evs (initial clk gen fmt frames ok) = Some t"
  shows "length (reactionTimes t) \<le> MAX_LOG_ENTRIES \<and>
         (reactionTimes t \<noteq> [] \<longrightarrow>
            bestTime t = Min (set (reactionTimes t)) \<and>
            averageTime t = sum_list (reactionTimes t) / real (length (reactionTimes t)))"
proof (rule run_invariant [where P = "\<lambda>t. length (reactionTimes t) \<le> MAX_LOG_ENTRIES \<and>
         (reactionTimes t \<noteq> [] \<longrightarrow>
            bestTime t = Min (set (reactionTimes t)) \<and>
            averageTime t = sum_list (reactionTimes t) / real (length (reactionTimes t)))", OF _ _ assms])
  show "length (reactionTimes (initial clk gen fmt frames ok)) \<le> MAX_LOG_ENTRIES \<and>
    (reactionTimes (initial clk gen fmt frames ok) \<noteq> [] \<longrightarrow>
     bestTime (initial clk gen fmt frames ok) = Min (set (reactionTimes (initial clk gen fmt frames ok))) \<and>
     averageTime (initial clk gen fmt frames ok) =
     sum_list (reactionTimes (initial clk gen fmt frames ok)) / real (length (reactionTimes (initial clk gen fmt frames ok))))"
    by (simp add: initial_def)
next
  fix e s s'
  assume P: "length (reactionTimes s) \<le> MAX_LOG_ENTRIES \<and>
         (reactionTimes s \<noteq> [] \<longrightarrow>
            bestTime s = Min (set (reactionTimes s)) \<and>
            averageTime s = sum_list (reactionTimes s) / real (length (reactionTimes s)))"
    and st: "step e s = Some s'"
  from st show "length (reactionTimes s') \<le> MAX_LOG_ENTRIES \<and>
         (reactionTimes s' \<noteq> [] \<longrightarrow>
            bestTime s' = Min (set (reactionTimes s')) \<and>
            averageTime s' = sum_list (reactionTimes s') / real (length (reactionTimes s')))"
  proof (cases rule: step_cases)
    case (frame ok)
    then show ?thesis using P by (cases rule: Render_cases [of s ok]) simp_all
  next
    case trial
    then show ?thesis using P by (auto simp: Let_def MAX_LOG_ENTRIES_def)
  qed (use P in \<open>simp_all add: clear_results_def\<close>)
qed



subsection \<open>A monotonic clock\<close>

lemma ascending_stl: "ascending c \<Longrightarrow> ascending (stl c)"
proof -
  assume a: "ascending c"
  have "stl c !! i \<le> stl c !! Suc i" for i
  proof -
    from a have "c !! Suc i \<le> c !! Suc (Suc i)" by (simp only: ascending_def)
    then show ?thesis by simp
  qed
  then show ?thesis by (simp only: ascending_def) simp
qed

lemma ascending_snth: "ascending c \<Longrightarrow> c !! 0 \<le> c !! n"
proof (induction n)
  case 0
  then show ?case by simp
next
  case (Suc n)
  then have "c !! n \<le> c !! Suc n" by (simp only: ascending_def)
  with Suc show ?case by simp
qed

lemma ascending_shd_le: "ascending c \<Longrightarrow> t \<in> sset c \<Longrightarrow> shd c \<le> t"
  using ascending_snth [of c] by (auto simp: sset_range)

lemma sset_stl_subset: "t \<in> sset (stl c) \<Longrightarrow> t \<in> sset c"
  by (rule stl_sset)

lemma funpow_add_const: "((\<lambda>t. t + k) ^^ i) x = x + int i * (k::int)"
  by (induction i) (simp_all add: algebra_simps)

lemma ascending_example_clock: "ascending example_clock"
  by (simp add: ascending_def example_clock_def funpow_add_const)

text \<open>
  With a monotonic clock: the clock stays monotonic, no sample is negative, and
  while flashing the onset is not later than any reading still to come.
\<close>

lemma latency_invariant:
  assumes "ascending clk" and "run evs (initial clk gen fmt frames ok) = Some t"
  shows "ascending (clock t) \<and> (\<forall>r\<in>set (reactionTimes t). 0 \<le> r) \<and>
         (state t = Flashing \<longrightarrow> (\<forall>u\<in>sset (clock t). flashStartTime t \<le> u))"
proof (rule run_invariant [where P = "\<lambda>t. ascending (clock t) \<and> (\<forall>r\<in>set (reactionTimes t). 0 \<le> r) \<and>
         (state t = Flashing \<longrightarrow> (\<forall>u\<in>sset (clock t). flashStartTime t \<le> u))", OF _ _ assms(2)])
  show "ascending (clock (initial clk gen fmt frames ok)) \<and>
    (\<forall>r\<in>set (reactionTimes (initial clk gen fmt frames ok)). 0 \<le> r) \<and>
    (state (initial clk gen fmt frames ok) = Flashing \<longrightarrow>
     (\<forall>u\<in>sset (clock (initial clk gen fmt frames ok)). flashStartTime (initial clk gen fmt frames ok) \<le> u))"
    using assms(1) by (simp add: initial_def ascending_stl)
next
  fix e s s'
  assume P: "ascending (clock s) \<and> (\<forall>r\<in>set (reactionTimes s). 0 \<le> r) \<and>
         (state s = Flashing \<longrightarrow> (\<forall>u\<in>sset (clock s). flashStartTime s \<le> u))"
    and st: "step e s = Some s'"
  from P have asc: "ascending (clock s)" and nn: "\<forall>r\<in>set (reactionTimes s). 0 \<le> r"
    and fl: "state s = Flashing \<Longrightarrow> \<forall>u\<in>sset (clock s). flashStartTime s \<le> u"
    by simp_all
  from st show "ascending (clock s') \<and> (\<forall>r\<in>set (reactionTimes s'). 0 \<le> r) \<and>
         (state s' = Flashing \<longrightarrow> (\<forall>u\<in>sset (clock s'). flashStartTime s' \<le> u))"
  proof (cases rule: step_cases)
    case same
    then show ?thesis using P by simp
  next
    case quit
    then show ?thesis using P by simp
  next
    case space
    then show ?thesis using asc by (simp add: clear_results_def ascending_stl)
  next
    case f1
    then show ?thesis using asc by (simp add: clear_results_def ascending_stl)
  next
    case early
    then show ?thesis using asc nn by (simp add: ascending_stl)
  next
    case trial
    from fl [OF trial(1)] have "flashStartTime s \<le> shd (clock s)"
      by (simp add: shd_sset)
    then have r: "0 \<le> duration_ms (shd (clock s)) (flashStartTime s)"
      by (simp add: duration_ms_def)
    have "\<forall>x\<in>set (butlast (reactionTimes s)). 0 \<le> x"
      using nn by (auto dest: in_set_butlastD)
    with trial r nn asc show ?thesis
      by (simp add: Let_def ascending_stl)
  next
    case retry
    then show ?thesis using asc nn by (simp add: ascending_stl)
  next
    case (frame ok)
    show ?thesis
    proof (cases rule: Render_cases [of s ok])
      case idle
      with frame asc nn fl show ?thesis
        by (auto simp: ascending_stl dest: sset_stl_subset)
    next
      case flash
      from asc have "ascending (stl (clock s))" by (rule ascending_stl)
      then have "\<forall>u\<in>sset (stl (stl (clock s))). shd (stl (clock s)) \<le> u"
        by (auto intro: ascending_shd_le dest: sset_stl_subset)
      with frame flash asc nn show ?thesis by (simp add: ascending_stl)
    next
      case beep
      from asc have "ascending (stl (clock s))" by (rule ascending_stl)
      then have "\<forall>u\<in>sset (stl (stl (clock s))). shd (stl (clock s)) \<le> u"
        by (auto intro: ascending_shd_le dest: sset_stl_subset)
      with frame beep asc nn show ?thesis by (simp add: ascending_stl)
    qed
  qed
qed

text \<open>
  Claim C2. With a monotonic clock, every sample in the vector of a state that a run
  of the program reaches is greater than or equal to zero: the flashing state is only
  entered by the frame that reads the onset time, and a press is stamped by a later
  reading.
\<close>

theorem latency_nonnegative:
  assumes "ascending clk" and "run evs (initial clk gen fmt frames ok) = Some t"
  shows "\<forall>r\<in>set (reactionTimes t). 0 \<le> r"
  using latency_invariant [OF assms] by simp

theorem latency_nonnegative_witness:
  "ascending example_clock \<and>
   (\<exists>t. run example_trial (initial example_clock (sconst 1500) example_format 144 True) = Some t \<and>
        reactionTimes t = [500] \<and> (\<forall>r\<in>set (reactionTimes t). 0 \<le> r))"
proof -
  obtain t where t: "run example_trial (initial example_clock (sconst 1500) example_format 144 True) = Some t"
    and rt: "reactionTimes t = [500]"
    using run_example_trial by (simp add: example_start_def)
  from latency_nonnegative [OF ascending_example_clock t]
  have "\<forall>r\<in>set (reactionTimes t). 0 \<le> r" .
  with t rt ascending_example_clock show ?thesis by blast
qed

subsection \<open>The tone\<close>

lemma tone_floor: "\<lfloor>real k * 80 / 1000\<rfloor> = int (k * 80 div 1000)"
proof -
  have "real k * 80 / 1000 = real (k * 80) / real 1000" by simp
  then show ?thesis by (simp only: floor_divide_of_nat_eq)
qed

lemma toneSamples_unat:
  "unat (toneSamples s) =
     min (unat (nSamplesPerSec (audioFormat s)) * 80 div 1000) (unat (audioBufferFrames s))"
proof -
  let ?k = "unat (nSamplesPerSec (audioFormat s))"
  let ?n = "word_of_int \<lfloor>real ?k * TONE_DURATION_MS / 1000\<rfloor> :: 32 word"
  have "?k < 2 ^ 32" using unsigned_less [of "nSamplesPerSec (audioFormat s)"] by simp
  then have small: "?k * 80 div 1000 < 2 ^ 32" by simp
  have "?n = word_of_nat (?k * 80 div 1000)"
    by (simp only: TONE_DURATION_MS_def tone_floor word_of_int_eq_iff) simp
  then have n: "unat ?n = ?k * 80 div 1000"
    using small by (simp add: unat_of_nat)
  show ?thesis
    using n by (auto simp: toneSamples_def Let_def word_less_nat_alt min_def)
qed

text \<open>
  Claim C9. When the tone engine emits a tone (the engine is initialised and the
  buffer is obtained), the number of frames it writes is the sample rate times 80 ms,
  in whole frames, clamped to the size of the negotiated buffer, which it never
  exceeds.
\<close>

theorem tone_frames_clamped:
  assumes "audioInitialized s" and "getBufferOk"
  shows "\<exists>n. beepLog (PlayBeepWASAPI getBufferOk s) = (roundNo s, Some n) # beepLog s \<and>
             unat n = min (unat (nSamplesPerSec (audioFormat s)) * 80 div 1000)
                          (unat (audioBufferFrames s)) \<and>
             n \<le> audioBufferFrames s"
proof -
  have "toneSamples s \<le> audioBufferFrames s"
    by (simp add: word_le_nat_alt toneSamples_unat)
  with assms show ?thesis
    by (simp add: PlayBeepWASAPI_def toneSamples_unat)
qed

theorem tone_frames_clamped_witness:
  "audioInitialized example_start \<and>
   beepLog (PlayBeepWASAPI True example_start) = [(1, Some 144)] \<and>
   beepLog (PlayBeepWASAPI True (example_start\<lparr>audioBufferFrames := 4800\<rparr>)) = [(1, Some 3840)]"
proof -
  have i: "audioInitialized example_start"
    by (simp add: example_start_def initial_def)
  have f: "nSamplesPerSec (audioFormat example_start) = 48000" "audioBufferFrames example_start = 144"
    by (simp_all add: example_start_def initial_def example_format_def)
  from tone_frames_clamped [OF i, of True]
  obtain n where n: "beepLog (PlayBeepWASAPI True example_start) = (roundNo example_start, Some n) # beepLog example_start"
    "unat n = min (unat (nSamplesPerSec (audioFormat example_start)) * 80 div 1000)
                          (unat (audioBufferFrames example_start))" by blast
  from n(2) have "unat n = 144" by (simp add: f)
  then have "n = 144" by (simp add: word_eq_iff_unsigned [where ?'a = nat])
  with n(1) have a: "beepLog (PlayBeepWASAPI True example_start) = [(1, Some 144)]" by simp
  let ?s = "example_start\<lparr>audioBufferFrames := 4800\<rparr>"
  have i': "audioInitialized ?s" using i by simp
  from tone_frames_clamped [OF i', of True]
  obtain m where m: "beepLog (PlayBeepWASAPI True ?s) = (roundNo ?s, Some m) # beepLog ?s"
    "unat m = min (unat (nSamplesPerSec (audioFormat ?s)) * 80 div 1000)
                          (unat (audioBufferFrames ?s))" by blast
  from m(2) have "unat m = 3840" by (simp add: f)
  then have "m = 3840" by (simp add: word_eq_iff_unsigned [where ?'a = nat])
  with m(1) have b: "beepLog (PlayBeepWASAPI True ?s) = [(1, Some 3840)]" by simp
  from i a b show ?thesis by simp
qed

subsection \<open>One tone per round\<close>

lemma run_append:
  "run (xs @ ys) s = (case run xs s of None \<Rightarrow> None | Some s' \<Rightarrow> run ys s')"
  by (induction xs arbitrary: s) (auto split: option.splits)

lemma beep_invariant:
  assumes "run evs (initial clk gen fmt frames ok) = Some t"
  shows "distinct (map fst (beepLog t)) \<and> (\<forall>r\<in>fst ` set (beepLog t). r \<le> roundNo t) \<and>
         (roundNo t \<in> fst ` set (beepLog t) \<longrightarrow> state t = Flashing \<and> beepPlayed t)"
proof (rule run_invariant [where P = "\<lambda>t. distinct (map fst (beepLog t)) \<and>
         (\<forall>r\<in>fst ` set (beepLog t). r \<le> roundNo t) \<and>
         (roundNo t \<in> fst ` set (beepLog t) \<longrightarrow> state t = Flashing \<and> beepPlayed t)", OF _ _ assms])
  show "distinct (map fst (beepLog (initial clk gen fmt frames ok))) \<and>
    (\<forall>r\<in>fst ` set (beepLog (initial clk gen fmt frames ok)). r \<le> roundNo (initial clk gen fmt frames ok)) \<and>
    (roundNo (initial clk gen fmt frames ok) \<in> fst ` set (beepLog (initial clk gen fmt frames ok)) \<longrightarrow>
     state (initial clk gen fmt frames ok) = Flashing \<and> beepPlayed (initial clk gen fmt frames ok))"
    by (simp add: initial_def)
next
  fix e s s'
  assume P: "distinct (map fst (beepLog s)) \<and> (\<forall>r\<in>fst ` set (beepLog s). r \<le> roundNo s) \<and>
         (roundNo s \<in> fst ` set (beepLog s) \<longrightarrow> state s = Flashing \<and> beepPlayed s)"
    and st: "step e s = Some s'"
  from P have fresh: "Suc (roundNo s) \<notin> fst ` set (beepLog s)" by fastforce
  from P have le: "\<forall>r\<in>fst ` set (beepLog s). r \<le> Suc (roundNo s)" by fastforce
  from st show "distinct (map fst (beepLog s')) \<and> (\<forall>r\<in>fst ` set (beepLog s'). r \<le> roundNo s') \<and>
         (roundNo s' \<in> fst ` set (beepLog s') \<longrightarrow> state s' = Flashing \<and> beepPlayed s')"
  proof (cases rule: step_cases)
    case same
    then show ?thesis using P by simp
  next
    case quit
    then show ?thesis using P by simp
  next
    case space
    then show ?thesis using P fresh le by (simp add: clear_results_def)
  next
    case f1
    then show ?thesis using P fresh le by (simp add: clear_results_def)
  next
    case early
    then show ?thesis using P by auto
  next
    case trial
    then show ?thesis using P fresh le by (simp add: Let_def)
  next
    case retry
    then show ?thesis using P fresh le by simp
  next
    case (frame ok)
    show ?thesis
    proof (cases rule: Render_cases [of s ok])
      case idle
      with frame P show ?thesis by simp
    next
      case flash
      with frame P show ?thesis by auto
    next
      case beep
      with frame P show ?thesis by auto
    qed
  qed
qed

lemma step_beepLog:
  assumes "step e s = Some s'" and "beepLog s' \<noteq> beepLog s"
  shows "(\<exists>b. e = Frame b) \<and> audioMode s \<and> state s = Waiting \<and> \<not> beepPlayed s \<and>
         state s' = Flashing \<and> beepPlayed s' \<and> (\<exists>w. beepLog s' = (roundNo s, w) # beepLog s)"
  using assms(1)
proof (cases rule: step_cases)
  case (frame b)
  show ?thesis
  proof (cases rule: Render_cases [of s b])
    case idle
    with frame assms(2) show ?thesis by simp
  next
    case flash
    with frame assms(2) show ?thesis by simp
  next
    case beep
    with frame show ?thesis by simp
  qed
qed (use assms(2) in \<open>simp_all add: clear_results_def Let_def\<close>)

lemma step_beepPlayed_reset:
  assumes "step e s = Some s'" and "beepPlayed s" and "\<not> beepPlayed s'"
  shows "roundNo s' = Suc (roundNo s)"
  using assms(1)
proof (cases rule: step_cases)
  case (frame ok)
  then show ?thesis using assms(2,3) by (cases rule: Render_cases [of s ok]) simp_all
qed (use assms(2,3) in \<open>simp_all add: clear_results_def Let_def\<close>)

text \<open>
  Claim C7. In every state a run reaches, no round has two calls of the tone engine:
  the rounds recorded in \<open>beepLog\<close> are distinct. A step calls it only when it is a
  frame in audio mode that leaves \<open>Waiting\<close> for \<open>Flashing\<close> with the flag
  \<open>beepPlayed\<close> unset, and that step sets the flag; the flag is cleared only by a
  step that starts a new round.
\<close>

theorem beep_once_per_round:
  assumes "run evs (initial clk gen fmt frames ok) = Some t"
  shows "distinct (map fst (beepLog t)) \<and>
         (\<forall>e t'. step e t = Some t' \<and> beepLog t' \<noteq> beepLog t \<longrightarrow>
            (\<exists>b. e = Frame b) \<and> audioMode t \<and> state t = Waiting \<and> \<not> beepPlayed t \<and>
            state t' = Flashing \<and> beepPlayed t' \<and>
            (\<exists>w. beepLog t' = (roundNo t, w) # beepLog t)) \<and>
         (\<forall>e t'. step e t = Some t' \<and> beepPlayed t \<and> \<not> beepPlayed t' \<longrightarrow>
            roundNo t' = Suc (roundNo t))"
  using beep_invariant [OF assms] step_beepLog [of _ t] step_beepPlayed_reset [of _ t]
  by blast

lemma example_audio_start_simps [simp]:
  "state example_audio_start = Waiting"
  "roundStartTime example_audio_start = 500000000"
  "targetDelayMs example_audio_start = 1500"
  "audioMode example_audio_start = True"
  "beepPlayed example_audio_start = False"
  "audioInitialized example_audio_start = True"
  "audioBufferFrames example_audio_start = 144"
  "audioFormat example_audio_start = example_format"
  "clock example_audio_start = siterate (\<lambda>t. t + 500000000) 1000000000"
  "rng example_audio_start = sconst 1500"
  "roundNo example_audio_start = 2"
  "beepLog example_audio_start = []"
  by (simp_all add: example_audio_start_def clear_results_def example_start_def initial_def
      example_clock_def)

lemma example_audio_waiting_simps [simp]:
  "state example_audio_waiting = Waiting"
  "roundStartTime example_audio_waiting = 500000000"
  "targetDelayMs example_audio_waiting = 1500"
  "audioMode example_audio_waiting = True"
  "beepPlayed example_audio_waiting = False"
  "audioInitialized example_audio_waiting = True"
  "audioBufferFrames example_audio_waiting = 144"
  "audioFormat example_audio_waiting = example_format"
  "clock example_audio_waiting = siterate (\<lambda>t. t + 500000000) 2000000000"
  "rng example_audio_waiting = sconst 1500"
  "roundNo example_audio_waiting = 2"
  "beepLog example_audio_waiting = []"
  by (simp_all add: example_audio_waiting_def Render_def Clock_now_def duration_ms_def)

lemma toneSamples_example: "toneSamples example_audio_waiting = 144"
  by (simp add: word_eq_iff_unsigned [where ?'a = nat] toneSamples_unat example_format_def)

lemma Render_example_audio_waiting:
  "Render True example_audio_waiting =
     example_audio_waiting\<lparr>clock := siterate (\<lambda>t. t + 500000000) 3000000000,
       state := Flashing, flashStartTime := 2500000000, beepPlayed := True,
       beepLog := [(2, Some 144)]\<rparr>"
  by (cases rule: Render_cases [of example_audio_waiting True])
     (simp_all add: duration_ms_def toneSamples_example)

lemma example_audio_flashing_simps [simp]:
  "state example_audio_flashing = Flashing"
  "beepPlayed example_audio_flashing = True"
  "roundNo example_audio_flashing = 2"
  "beepLog example_audio_flashing = [(2, Some 144)]"
  by (simp_all only: example_audio_flashing_def Render_example_audio_waiting)
     (simp_all add: Render_def Clock_now_def)

lemma run_example_audio_prefix:
  "run example_audio_prefix example_start = Some example_audio_waiting"
  by (simp add: example_audio_prefix_def step_def WndProc_def VK_F1_def VK_ESCAPE_def
      VK_SPACE_def example_audio_waiting_def example_audio_start_def)

lemma run_example_audio:
  "run example_audio example_start = Some example_audio_flashing"
  by (simp add: example_audio_def run_append run_example_audio_prefix step_def
      example_audio_flashing_def)

theorem beep_once_per_round_witness:
  "(\<exists>t. run example_audio (initial example_clock (sconst 1500) example_format 144 True) = Some t \<and>
        beepLog t = [(2, Some 144)] \<and> distinct (map fst (beepLog t)) \<and> beepPlayed t \<and>
        (\<exists>t'. step (Message (WM_INPUT (Some click))) t = Some t' \<and> \<not> beepPlayed t' \<and>
              roundNo t' = Suc (roundNo t))) \<and>
   (\<exists>t t'. run example_audio_prefix (initial example_clock (sconst 1500) example_format 144 True)
           = Some t \<and>
         step (Frame True) t = Some t' \<and> beepLog t' \<noteq> beepLog t \<and>
         audioMode t \<and> state t = Waiting \<and> state t' = Flashing \<and>
         (\<exists>w. beepLog t' = (roundNo t, w) # beepLog t))"
proof -
  let ?init = "initial example_clock (sconst 1500) example_format 144 True"
  have r1: "run example_audio ?init = Some example_audio_flashing"
    using run_example_audio by (simp add: example_start_def)
  have r2: "run example_audio_prefix ?init = Some example_audio_waiting"
    using run_example_audio_prefix by (simp add: example_start_def)
  note a = beep_once_per_round [OF r1]
  note b = beep_once_per_round [OF r2]
  let ?t' = "StartNewRound (example_audio_flashing\<lparr>clock := stl (clock example_audio_flashing)\<rparr>)"
  obtain t' where t': "step (Message (WM_INPUT (Some click))) example_audio_flashing = Some t'"
    and nb: "\<not> beepPlayed t'"
    by (simp add: step_def WndProc_def ProcessRawInput_Flashing_eq [of click left_down] Let_def)
  from a t' nb have "roundNo t' = Suc (roundNo example_audio_flashing)" by simp
  with a r1 t' nb have first: "\<exists>t. run example_audio ?init = Some t \<and>
        beepLog t = [(2, Some 144)] \<and> distinct (map fst (beepLog t)) \<and> beepPlayed t \<and>
        (\<exists>t'. step (Message (WM_INPUT (Some click))) t = Some t' \<and> \<not> beepPlayed t' \<and>
              roundNo t' = Suc (roundNo t))"
    by simp
  have st: "step (Frame True) example_audio_waiting = Some (Render True example_audio_waiting)"
    by (simp add: step_def)
  have ch: "beepLog (Render True example_audio_waiting) \<noteq> beepLog example_audio_waiting"
    by (simp add: Render_example_audio_waiting)
  from b st ch have "audioMode example_audio_waiting \<and> state example_audio_waiting = Waiting \<and>
      state (Render True example_audio_waiting) = Flashing \<and>
      (\<exists>w. beepLog (Render True example_audio_waiting)
          = (roundNo example_audio_waiting, w) # beepLog example_audio_waiting)"
    by blast
  with r2 st ch have second: "\<exists>t t'. run example_audio_prefix ?init = Some t \<and>
         step (Frame True) t = Some t' \<and> beepLog t' \<noteq> beepLog t \<and>
         audioMode t \<and> state t = Waiting \<and> state t' = Flashing \<and>
         (\<exists>w. beepLog t' = (roundNo t, w) # beepLog t)"
    by blast
  from first second show ?thesis by blast
qed

section \<open>Properties of the latency tester\<close>

lemma TriggerFlash_logEntries:
  "logEntries (TriggerFlash W inputInfo deviceInfo s) =
     (if enableLog s then
        (let cur = duration_ms (shd (clock_main s)) (appStartTime s);
             entry = swprintf_time W cur (cur - lastEventTimeMs s) @ '' | '' @ inputInfo @
                       '' | '' @ deviceInfo
         in entry # (if length (logEntries s) < MAX_LOG_ENTRIES_main then logEntries s
                     else butlast (logEntries s)))
      else logEntries s)"
  by (cases "logEntries s")
     (auto simp: TriggerFlash_def Clock_now_main_def Let_def MAX_LOG_ENTRIES_main_def)

lemma TriggerFlash_simps [simp]:
  "clock_main (TriggerFlash W i d s) = stl (clock_main s)"
  "mouseDeltaTimes (TriggerFlash W i d s) = mouseDeltaTimes s"
  "mouseHz (TriggerFlash W i d s) = mouseHz s"
  "enableLog (TriggerFlash W i d s) = enableLog s"
  "enableMouseHz (TriggerFlash W i d s) = enableMouseHz s"
  "enableOverlay (TriggerFlash W i d s) = enableOverlay s"
  by (simp_all add: TriggerFlash_def Clock_now_main_def Let_def)

lemma TriggerFlash_log_bound:
  "length (logEntries s) \<le> MAX_LOG_ENTRIES_main \<Longrightarrow>
   length (logEntries (TriggerFlash W i d s)) \<le> MAX_LOG_ENTRIES_main"
  by (auto simp: TriggerFlash_logEntries Let_def MAX_LOG_ENTRIES_main_def)

lemma ProcessRawInput_main_mouse:
  assumes "data raw = RIM_TYPEMOUSE mouse"
  shows "ProcessRawInput_main W (Some raw) s =
     (let s1 = (if (lLastX mouse \<noteq> 0 \<or> lLastY mouse \<noteq> 0) \<and> enableMouseHz s
                then s\<lparr>clock_main := stl (clock_main s),
                        mouseDeltaTimes := mouseDeltaTimes s @ [shd (clock_main s)]\<rparr>
                else s)
      in if usButtonFlags mouse \<noteq> 0 \<and> \<not> enableMouseButtons s then s1
         else if (lLastX mouse \<noteq> 0 \<or> lLastY mouse \<noteq> 0) \<and> usButtonFlags mouse = 0 \<and>
                 \<not> enableMouseDelta s then s1
         else case mouse_inputInfo (enableUpEvents s) mouse of
                None \<Rightarrow> s1
              | Some i \<Rightarrow> TriggerFlash W i
                  (''MOUSE'' @ '': '' @ device_part (GetRawInputDeviceInfoW W (hDevice raw))) s1)"
proof -
  define A where "A \<longleftrightarrow> (lLastX mouse \<noteq> 0 \<or> lLastY mouse \<noteq> 0)"
  show ?thesis
    using assms
    by (cases A; cases "enableMouseHz s"; cases "usButtonFlags mouse = 0";
        cases "enableMouseButtons s"; cases "enableMouseDelta s";
        simp add: A_def ProcessRawInput_main_def Clock_now_main_def Let_def split del: if_split cong: option.case_cong)
qed

lemma ProcessRawInput_main_mouse_disj:
  fixes s :: AppState_main and mouse :: RAWMOUSE
  defines "s1 \<equiv> (if (lLastX mouse \<noteq> 0 \<or> lLastY mouse \<noteq> 0) \<and> enableMouseHz s
                then s\<lparr>clock_main := stl (clock_main s),
                        mouseDeltaTimes := mouseDeltaTimes s @ [shd (clock_main s)]\<rparr>
                else s)"
  assumes "data raw = RIM_TYPEMOUSE mouse"
  shows "ProcessRawInput_main W (Some raw) s = s1 \<or>
         (\<exists>i d. ProcessRawInput_main W (Some raw) s = TriggerFlash W i d s1)"
proof -
  note eq = ProcessRawInput_main_mouse [OF assms(2), of W s, folded s1_def]
  show ?thesis
  proof (cases "usButtonFlags mouse \<noteq> 0 \<and> \<not> enableMouseButtons s")
    case True
    then have "ProcessRawInput_main W (Some raw) s = s1"
      unfolding eq Let_def by auto
    then show ?thesis by (rule disjI1)
  next
    case B: False
    show ?thesis
    proof (cases "(lLastX mouse \<noteq> 0 \<or> lLastY mouse \<noteq> 0) \<and> usButtonFlags mouse = 0 \<and>
                 \<not> enableMouseDelta s")
      case True
      with B have "ProcessRawInput_main W (Some raw) s = s1"
        unfolding eq Let_def by auto
      then show ?thesis by (rule disjI1)
    next
      case C: False
      show ?thesis
      proof (cases "mouse_inputInfo (enableUpEvents s) mouse")
        case None
        with B C have "ProcessRawInput_main W (Some raw) s = s1"
          unfolding eq Let_def by auto
        then show ?thesis by (rule disjI1)
      next
        case (Some i)
        with B C have "ProcessRawInput_main W (Some raw) s = TriggerFlash W i
            (''MOUSE'' @ '': '' @ device_part (GetRawInputDeviceInfoW W (hDevice raw))) s1"
          unfolding eq Let_def by auto
        then have "\<exists>i d. ProcessRawInput_main W (Some raw) s = TriggerFlash W i d s1"
          by (intro exI)
        then show ?thesis by (rule disjI2)
      qed
    qed
  qed
qed

text \<open>
  \<^verbatim>\<open>ProcessRawInput\<close> of the latency tester in two stages: the rate tracking, which
  may append the time of the event, then either nothing more or a call of
  \<^verbatim>\<open>TriggerFlash\<close>.
\<close>

lemma ProcessRawInput_main_shape:
  "\<exists>s1. (s1 = s \<or>
          enableMouseHz s \<and>
          s1 = s\<lparr>clock_main := stl (clock_main s),
                  mouseDeltaTimes := mouseDeltaTimes s @ [shd (clock_main s)]\<rparr>) \<and>
        (ProcessRawInput_main W l s = s1 \<or>
         (\<exists>i d. ProcessRawInput_main W l s = TriggerFlash W i d s1))"
proof (cases l)
  case None
  then have "ProcessRawInput_main W l s = s" by (simp add: ProcessRawInput_main_def)
  then show ?thesis by - (rule exI [of _ s], simp)
next
  case (Some raw)
  show ?thesis
  proof (cases "data raw")
    case RIM_TYPEHID
    with Some have "ProcessRawInput_main W l s = s" by (simp add: ProcessRawInput_main_def)
    then show ?thesis by - (rule exI [of _ s], simp)
  next
    case (RIM_TYPEKEYBOARD kb)
    have "ProcessRawInput_main W (Some raw) s = s \<or>
      ProcessRawInput_main W (Some raw) s = TriggerFlash W (keyboard_inputInfo W kb)
           (''KEYBOARD'' @ '': '' @ device_part (GetRawInputDeviceInfoW W (hDevice raw))) s"
      using RIM_TYPEKEYBOARD by (simp add: ProcessRawInput_main_def Let_def)
    then have "ProcessRawInput_main W l s = s \<or>
         (\<exists>i d. ProcessRawInput_main W l s = TriggerFlash W i d s)"
      unfolding Some by (elim disjE) (rule disjI1, assumption, rule disjI2, intro exI, assumption)
    then show ?thesis by - (rule exI [of _ s], simp)
  next
    case (RIM_TYPEMOUSE mouse)
    let ?s1 = "if (lLastX mouse \<noteq> 0 \<or> lLastY mouse \<noteq> 0) \<and> enableMouseHz s
                then s\<lparr>clock_main := stl (clock_main s),
                        mouseDeltaTimes := mouseDeltaTimes s @ [shd (clock_main s)]\<rparr>
                else s"
    have a: "?s1 = s \<or>
          enableMouseHz s \<and>
          ?s1 = s\<lparr>clock_main := stl (clock_main s),
                  mouseDeltaTimes := mouseDeltaTimes s @ [shd (clock_main s)]\<rparr>"
      by simp
    from ProcessRawInput_main_mouse_disj [OF RIM_TYPEMOUSE, of W s]
    have b: "ProcessRawInput_main W l s = ?s1 \<or>
         (\<exists>i d. ProcessRawInput_main W l s = TriggerFlash W i d ?s1)"
      unfolding Some .
    from a b show ?thesis by - (rule exI [of _ ?s1], rule conjI)
  qed
qed

lemma end_flash_simps [simp]:
  "logEntries (end_flash s) = logEntries s"
  "mouseDeltaTimes (end_flash s) = mouseDeltaTimes s"
  "mouseHz (end_flash s) = mouseHz s"
  "clock_main (end_flash s) = (if isFlashing s then stl (clock_main s) else clock_main s)"
  by (simp_all add: end_flash_def Clock_now_main_def Let_def)

lemma Render_main_logEntries [simp]: "logEntries (Render_main s) = logEntries s"
  by (simp add: Render_main_def Clock_now_main_def Let_def)

lemma step_main_log_bound:
  assumes "length (logEntries s) \<le> MAX_LOG_ENTRIES_main"
  shows "length (logEntries (step_main W e s)) \<le> MAX_LOG_ENTRIES_main"
proof (cases e)
  case Frame_main
  with assms show ?thesis by (simp add: step_main_def)
next
  case (Message_main msg)
  show ?thesis
  proof (cases msg)
    case (WM_INPUT l)
    from ProcessRawInput_main_shape [of s W l]
    obtain s1 where a: "s1 = s \<or> enableMouseHz s \<and>
          s1 = s\<lparr>clock_main := stl (clock_main s),
                  mouseDeltaTimes := mouseDeltaTimes s @ [shd (clock_main s)]\<rparr>"
      and r: "ProcessRawInput_main W l s = s1 \<or>
         (\<exists>i d. ProcessRawInput_main W l s = TriggerFlash W i d s1)"
      by blast
    from a have s1: "logEntries s1 = logEntries s" by (elim disjE conjE) simp_all
    from s1 assms have "length (logEntries s1) \<le> MAX_LOG_ENTRIES_main" by simp
    with r have "length (logEntries (ProcessRawInput_main W l s)) \<le> MAX_LOG_ENTRIES_main"
      using TriggerFlash_log_bound [of s1 W] by auto
    with Message_main WM_INPUT show ?thesis by (simp add: step_main_def WndProc_main_def)
  qed (use assms Message_main in \<open>simp_all add: step_main_def WndProc_main_def Let_def\<close>)
qed

lemma run_main_invariant:
  assumes "\<And>e s. P s \<Longrightarrow> P (step_main W e s)" and "P s"
  shows "P (run_main W evs s)"
  using assms(2) by (induction evs arbitrary: s) (simp_all add: assms(1))

lemma run_main_log_bound:
  "length (logEntries (run_main W evs (initial_main clk))) \<le> MAX_LOG_ENTRIES_main"
  by (rule run_main_invariant [where P = "\<lambda>s. length (logEntries s) \<le> MAX_LOG_ENTRIES_main"])
     (simp_all add: step_main_log_bound initial_main_def)

lemma evict_old_sorted: "sorted xs \<Longrightarrow> evict_old c xs = filter (\<lambda>t. c \<le> t) xs"
proof (induction xs)
  case Nil
  then show ?case by simp
next
  case (Cons t ts)
  show ?case
  proof (cases "t < c")
    case True
    with Cons show ?thesis by simp
  next
    case False
    with Cons.prems have "\<forall>u\<in>set (t # ts). c \<le> u" by auto
    then have "filter (\<lambda>t. c \<le> t) (t # ts) = t # ts" by (simp only: filter_True)
    with False show ?thesis by simp
  qed
qed

lemma evict_old_suffix: "\<exists>ys. xs = ys @ evict_old c xs"
proof (induction xs)
  case Nil
  then show ?case by simp
next
  case (Cons t ts)
  then obtain ys where "ts = ys @ evict_old c ts" by blast
  then have "t # ts = (t # ys) @ evict_old c ts" by simp
  then have a: "\<exists>ys. t # ts = ys @ evict_old c ts" by (rule exI)
  have b: "\<exists>ys. t # ts = ys @ (t # ts)" by (rule exI [of _ "[]"]) simp
  from a b show ?case by (cases "t < c") simp_all
qed

lemma evict_old_set: "set (evict_old c xs) \<subseteq> set xs"
  using evict_old_suffix [of xs c] by (metis set_append sup_ge2)

lemma evict_old_keeps_sorted: "sorted xs \<Longrightarrow> sorted (evict_old c xs)"
  using evict_old_suffix [of xs c] by (metis sorted_append)

lemma Render_main_rate:
  "mouseDeltaTimes (Render_main s) =
     (if enableOverlay s \<and> enableMouseHz s
      then evict_old (shd (clock_main s) - 1000000000) (mouseDeltaTimes s)
      else mouseDeltaTimes s)"
  "mouseHz (Render_main s) =
     (if enableOverlay s \<and> enableMouseHz s
      then real (length (evict_old (shd (clock_main s) - 1000000000) (mouseDeltaTimes s)))
      else mouseHz s)"
  by (simp_all add: Render_main_def Clock_now_main_def Let_def)

lemma Render_main_clock: "\<exists>n. clock_main (Render_main s) = sdrop n (clock_main s)"
proof -
  have "clock_main (Render_main s) = sdrop 0 (clock_main s) \<or>
        clock_main (Render_main s) = sdrop 1 (clock_main s) \<or>
        clock_main (Render_main s) = sdrop 2 (clock_main s)"
    by (simp add: Render_main_def Clock_now_main_def Let_def numeral_2_eq_2)
  then show ?thesis by blast
qed

lemma ascending_sdrop: "ascending c \<Longrightarrow> ascending (sdrop n c)"
  by (induction n arbitrary: c) (simp_all add: ascending_stl)

lemma sset_sdrop_subset: "u \<in> sset (sdrop n c) \<Longrightarrow> u \<in> sset c"
proof (induction n arbitrary: c)
  case 0
  then show ?case by simp
next
  case (Suc n)
  then have "u \<in> sset (stl c)" by simp
  then show ?case by (rule stl_sset)
qed

text \<open>
  With a monotonic clock the recorded times are in order, and none is later than a
  reading still to come.
\<close>

lemma rate_invariant_step:
  assumes "ascending (clock_main s)" and "sorted (mouseDeltaTimes s)"
    and "\<forall>t\<in>set (mouseDeltaTimes s). \<forall>u\<in>sset (clock_main s). t \<le> u"
  shows "ascending (clock_main (step_main W e s)) \<and> sorted (mouseDeltaTimes (step_main W e s)) \<and>
         (\<forall>t\<in>set (mouseDeltaTimes (step_main W e s)).
            \<forall>u\<in>sset (clock_main (step_main W e s)). t \<le> u)"
proof (cases e)
  case Frame_main
  obtain n where n: "clock_main (Render_main s) = sdrop n (clock_main s)"
    using Render_main_clock by blast
  have sub: "set (mouseDeltaTimes (Render_main s)) \<subseteq> set (mouseDeltaTimes s)"
    using evict_old_set by (simp add: Render_main_rate)
  have srt: "sorted (mouseDeltaTimes (Render_main s))"
    using assms(2) by (simp add: Render_main_rate evict_old_keeps_sorted)
  have "\<forall>t\<in>set (mouseDeltaTimes (Render_main s)). \<forall>u\<in>sset (clock_main (Render_main s)). t \<le> u"
    using assms(3) sub n by (auto dest: sset_sdrop_subset)
  with srt n assms(1) Frame_main show ?thesis
    by (simp add: step_main_def ascending_sdrop)
next
  case (Message_main msg)
  show ?thesis
  proof (cases msg)
    case (WM_INPUT l)
    let ?tr = "s\<lparr>clock_main := stl (clock_main s),
                  mouseDeltaTimes := mouseDeltaTimes s @ [shd (clock_main s)]\<rparr>"
    from ProcessRawInput_main_shape [of s W l]
    obtain s1 where a: "s1 = s \<or> enableMouseHz s \<and> s1 = ?tr"
      and r: "ProcessRawInput_main W l s = s1 \<or>
         (\<exists>i d. ProcessRawInput_main W l s = TriggerFlash W i d s1)"
      by blast
    have tr: "ascending (clock_main ?tr) \<and> sorted (mouseDeltaTimes ?tr) \<and>
         (\<forall>t\<in>set (mouseDeltaTimes ?tr). \<forall>u\<in>sset (clock_main ?tr). t \<le> u)"
    proof (intro conjI)
      show "ascending (clock_main ?tr)" using assms(1) by (simp add: ascending_stl)
      have "\<forall>t\<in>set (mouseDeltaTimes s). t \<le> shd (clock_main s)"
        using assms(3) by (simp add: shd_sset)
      with assms(2) show "sorted (mouseDeltaTimes ?tr)" by (simp add: sorted_append)
      show "\<forall>t\<in>set (mouseDeltaTimes ?tr). \<forall>u\<in>sset (clock_main ?tr). t \<le> u"
        using assms(1,3) by (auto dest: sset_stl_subset intro: ascending_shd_le)
    qed
    from a tr assms have s1: "ascending (clock_main s1) \<and> sorted (mouseDeltaTimes s1) \<and>
         (\<forall>t\<in>set (mouseDeltaTimes s1). \<forall>u\<in>sset (clock_main s1). t \<le> u)"
      by (elim disjE conjE) simp_all
    have "ascending (clock_main (TriggerFlash W i d s1)) \<and>
         sorted (mouseDeltaTimes (TriggerFlash W i d s1)) \<and>
         (\<forall>t\<in>set (mouseDeltaTimes (TriggerFlash W i d s1)).
            \<forall>u\<in>sset (clock_main (TriggerFlash W i d s1)). t \<le> u)" for i d
      using s1 by (auto simp: ascending_stl dest: sset_stl_subset)
    with r s1 have "ascending (clock_main (ProcessRawInput_main W l s)) \<and>
         sorted (mouseDeltaTimes (ProcessRawInput_main W l s)) \<and>
         (\<forall>t\<in>set (mouseDeltaTimes (ProcessRawInput_main W l s)).
            \<forall>u\<in>sset (clock_main (ProcessRawInput_main W l s)). t \<le> u)"
      by (elim disjE exE) simp_all
    with Message_main WM_INPUT show ?thesis by (simp add: step_main_def WndProc_main_def)
  qed (use assms Message_main in \<open>simp_all add: step_main_def WndProc_main_def Let_def\<close>)
qed

lemma rate_invariant:
  assumes "ascending clk"
  shows "ascending (clock_main (run_main W evs (initial_main clk))) \<and>
         sorted (mouseDeltaTimes (run_main W evs (initial_main clk))) \<and>
         (\<forall>t\<in>set (mouseDeltaTimes (run_main W evs (initial_main clk))).
            \<forall>u\<in>sset (clock_main (run_main W evs (initial_main clk))). t \<le> u)"
proof (rule run_main_invariant [where P = "\<lambda>s. ascending (clock_main s) \<and>
         sorted (mouseDeltaTimes s) \<and>
         (\<forall>t\<in>set (mouseDeltaTimes s). \<forall>u\<in>sset (clock_main s). t \<le> u)"])
  show "ascending (clock_main (initial_main clk)) \<and> sorted (mouseDeltaTimes (initial_main clk)) \<and>
    (\<forall>t\<in>set (mouseDeltaTimes (initial_main clk)). \<forall>u\<in>sset (clock_main (initial_main clk)). t \<le> u)"
    using assms by (simp add: initial_main_def ascending_stl)
next
  fix e and s :: AppState_main
  assume "ascending (clock_main s) \<and> sorted (mouseDeltaTimes s) \<and>
         (\<forall>t\<in>set (mouseDeltaTimes s). \<forall>u\<in>sset (clock_main s). t \<le> u)"
  then show "ascending (clock_main (step_main W e s)) \<and> sorted (mouseDeltaTimes (step_main W e s)) \<and>
         (\<forall>t\<in>set (mouseDeltaTimes (step_main W e s)).
            \<forall>u\<in>sset (clock_main (step_main W e s)). t \<le> u)"
    using rate_invariant_step [of s W e] by blast
qed

lemma motion_tracked:
  assumes "data raw = RIM_TYPEMOUSE mouse" and "lLastX mouse \<noteq> 0 \<or> lLastY mouse \<noteq> 0"
    and "enableMouseHz s"
  shows "mouseDeltaTimes (ProcessRawInput_main W (Some raw) s) =
           mouseDeltaTimes s @ [shd (clock_main s)]"
proof -
  let ?tr = "s\<lparr>clock_main := stl (clock_main s),
                mouseDeltaTimes := mouseDeltaTimes s @ [shd (clock_main s)]\<rparr>"
  from ProcessRawInput_main_mouse_disj [OF assms(1), of W s] assms(2,3)
  have "ProcessRawInput_main W (Some raw) s = ?tr \<or>
        (\<exists>i d. ProcessRawInput_main W (Some raw) s = TriggerFlash W i d ?tr)"
    by simp
  then show ?thesis by (elim disjE exE) simp_all
qed

lemma motion_suppressed:
  assumes "data raw = RIM_TYPEMOUSE mouse" and "lLastX mouse \<noteq> 0 \<or> lLastY mouse \<noteq> 0"
    and "usButtonFlags mouse = 0" and "\<not> enableMouseDelta s"
  shows "ProcessRawInput_main W (Some raw) s =
           (if enableMouseHz s
            then s\<lparr>clock_main := stl (clock_main s),
                    mouseDeltaTimes := mouseDeltaTimes s @ [shd (clock_main s)]\<rparr>
            else s)"
  using assms(2-) unfolding ProcessRawInput_main_mouse [OF assms(1)] Let_def by simp

lemma example_motion_simps [simp]:
  "data example_motion =
     RIM_TYPEMOUSE \<lparr>usButtonFlags = 0, usButtonData = 0, lLastX = 3, lLastY = - 1\<rparr>"
  by (simp add: example_motion_def)

lemma example_rate_start_simps [simp]:
  "enableMouseHz example_rate_start" "\<not> enableMouseDelta example_rate_start"
  "enableOverlay example_rate_start" "mouseDeltaTimes example_rate_start = []"
  "clock_main example_rate_start = siterate (\<lambda>t. t + 500000000) 1000000000"
  "lastInputText example_rate_start = ''Waiting for input...''"
  "\<not> isFlashing example_rate_start"
  by (simp_all add: example_rate_start_def initial_main_def example_clock_def)

lemma example_motion_step:
  assumes "enableMouseHz s" and "\<not> enableMouseDelta s"
  shows "ProcessRawInput_main W (Some example_motion) s =
           s\<lparr>clock_main := stl (clock_main s),
             mouseDeltaTimes := mouseDeltaTimes s @ [shd (clock_main s)]\<rparr>"
  using motion_suppressed [OF example_motion_simps, of s W] assms by simp

lemma run_example_rate_events:
  "run_main W example_rate_events (initial_main example_clock) =
     example_rate_start\<lparr>clock_main := siterate (\<lambda>t. t + 500000000) 3000000000,
       mouseDeltaTimes := [1000000000, 1500000000, 2000000000, 2500000000]\<rparr>"
proof -
  have "run_main W [Message_main (WM_KEYDOWN VK_F8), Message_main (WM_KEYDOWN VK_F3)]
          (initial_main example_clock) = example_rate_start"
    by (simp add: step_main_def WndProc_main_def Let_def example_rate_start_def initial_main_def
        VK_ESCAPE_def VK_F1_def VK_F2_def VK_F3_def VK_F4_def VK_F5_def VK_F6_def VK_F7_def
        VK_F8_def)
  then show ?thesis
    by (simp add: example_rate_events_def step_main_def WndProc_main_def example_motion_step)
qed

text \<open>
  Claim C8. In the latency tester, with rate tracking on, the time of every mouse
  event that carries a motion is appended to \<open>mouseDeltaTimes\<close> before the display
  filters are looked at: a motion without a button flag that the motion filter
  suppresses changes nothing else in the state. In a frame of the full path, with a
  monotonic clock, the entries older than one second before the frame's reading are
  removed and \<open>mouseHz\<close> is the number of entries that remain.
\<close>

theorem mouse_rate_window:
  "(data raw = RIM_TYPEMOUSE mouse \<and> (lLastX mouse \<noteq> 0 \<or> lLastY mouse \<noteq> 0) \<and>
    enableMouseHz s \<longrightarrow>
      mouseDeltaTimes (ProcessRawInput_main W (Some raw) s) =
        mouseDeltaTimes s @ [shd (clock_main s)]) \<and>
   (data raw = RIM_TYPEMOUSE mouse \<and> (lLastX mouse \<noteq> 0 \<or> lLastY mouse \<noteq> 0) \<and>
    usButtonFlags mouse = 0 \<and> \<not> enableMouseDelta s \<and> enableMouseHz s \<longrightarrow>
      ProcessRawInput_main W (Some raw) s =
        s\<lparr>clock_main := stl (clock_main s),
          mouseDeltaTimes := mouseDeltaTimes s @ [shd (clock_main s)]\<rparr>) \<and>
   (ascending clk \<and> t = run_main W evs (initial_main clk) \<and> enableOverlay t \<and>
    enableMouseHz t \<longrightarrow>
      mouseDeltaTimes (Render_main t) =
        filter (\<lambda>u. shd (clock_main t) - 1000000000 \<le> u) (mouseDeltaTimes t) \<and>
      mouseHz (Render_main t) = real (length (mouseDeltaTimes (Render_main t))))"
proof (intro conjI impI)
  assume "data raw = RIM_TYPEMOUSE mouse \<and> (lLastX mouse \<noteq> 0 \<or> lLastY mouse \<noteq> 0) \<and>
    enableMouseHz s"
  then show "mouseDeltaTimes (ProcessRawInput_main W (Some raw) s) =
        mouseDeltaTimes s @ [shd (clock_main s)]"
    using motion_tracked [of raw mouse s W] by blast
next
  assume a: "data raw = RIM_TYPEMOUSE mouse \<and> (lLastX mouse \<noteq> 0 \<or> lLastY mouse \<noteq> 0) \<and>
    usButtonFlags mouse = 0 \<and> \<not> enableMouseDelta s \<and> enableMouseHz s"
  then have "ProcessRawInput_main W (Some raw) s =
           (if enableMouseHz s
            then s\<lparr>clock_main := stl (clock_main s),
                    mouseDeltaTimes := mouseDeltaTimes s @ [shd (clock_main s)]\<rparr>
            else s)"
    using motion_suppressed [of raw mouse s W] by blast
  with a show "ProcessRawInput_main W (Some raw) s =
        s\<lparr>clock_main := stl (clock_main s),
          mouseDeltaTimes := mouseDeltaTimes s @ [shd (clock_main s)]\<rparr>"
    by simp
next
  assume a: "ascending clk \<and> t = run_main W evs (initial_main clk) \<and> enableOverlay t \<and>
    enableMouseHz t"
  then have asc: "ascending clk" and t: "t = run_main W evs (initial_main clk)"
    and on: "enableOverlay t \<and> enableMouseHz t"
    by blast+
  from rate_invariant [OF asc, of W evs] have "sorted (mouseDeltaTimes t)"
    unfolding t by blast
  then have ev: "evict_old (shd (clock_main t) - 1000000000) (mouseDeltaTimes t) =
      filter (\<lambda>u. shd (clock_main t) - 1000000000 \<le> u) (mouseDeltaTimes t)"
    by (rule evict_old_sorted)
  from on have m: "mouseDeltaTimes (Render_main t) =
      evict_old (shd (clock_main t) - 1000000000) (mouseDeltaTimes t)"
    and h: "mouseHz (Render_main t) =
      real (length (evict_old (shd (clock_main t) - 1000000000) (mouseDeltaTimes t)))"
    by (simp_all add: Render_main_rate)
  from m ev show "mouseDeltaTimes (Render_main t) =
        filter (\<lambda>u. shd (clock_main t) - 1000000000 \<le> u) (mouseDeltaTimes t)"
    by (rule trans)
  from h m show "mouseHz (Render_main t) = real (length (mouseDeltaTimes (Render_main t)))"
    by (simp only:)
qed

theorem mouse_rate_window_witness:
  "enableMouseHz example_rate_start \<and> \<not> enableMouseDelta example_rate_start \<and>
   mouseDeltaTimes (ProcessRawInput_main example_win32 (Some example_motion) example_rate_start)
     = [1000000000] \<and>
   lastInputText (ProcessRawInput_main example_win32 (Some example_motion) example_rate_start)
     = ''Waiting for input...'' \<and>
   \<not> isFlashing (ProcessRawInput_main example_win32 (Some example_motion) example_rate_start) \<and>
   ascending example_clock \<and>
   mouseDeltaTimes (run_main example_win32 example_rate_events (initial_main example_clock))
     = [1000000000, 1500000000, 2000000000, 2500000000] \<and>
   mouseDeltaTimes
     (Render_main (run_main example_win32 example_rate_events (initial_main example_clock)))
     = [2000000000, 2500000000] \<and>
   mouseHz (Render_main (run_main example_win32 example_rate_events (initial_main example_clock)))
     = 2"
proof -
  let ?m = "\<lparr>usButtonFlags = 0, usButtonData = 0, lLastX = 3, lLastY = - 1\<rparr> :: RAWMOUSE"
  let ?t = "run_main example_win32 example_rate_events (initial_main example_clock)"
  note inst = mouse_rate_window [of example_motion ?m example_rate_start example_win32
      example_clock ?t example_rate_events]
  have h: "data example_motion = RIM_TYPEMOUSE ?m \<and> (lLastX ?m \<noteq> 0 \<or> lLastY ?m \<noteq> 0) \<and>
      usButtonFlags ?m = 0 \<and> \<not> enableMouseDelta example_rate_start \<and>
      enableMouseHz example_rate_start"
    by simp
  with inst have eq: "ProcessRawInput_main example_win32 (Some example_motion) example_rate_start =
      example_rate_start\<lparr>clock_main := stl (clock_main example_rate_start),
        mouseDeltaTimes := mouseDeltaTimes example_rate_start @ [shd (clock_main example_rate_start)]\<rparr>"
    by blast
  have t: "?t = example_rate_start\<lparr>clock_main := siterate (\<lambda>t. t + 500000000) 3000000000,
       mouseDeltaTimes := [1000000000, 1500000000, 2000000000, 2500000000]\<rparr>"
    by (rule run_example_rate_events)
  have h3: "ascending example_clock \<and> ?t = ?t \<and> enableOverlay ?t \<and> enableMouseHz ?t"
    by (simp add: t ascending_example_clock)
  with inst have r: "mouseDeltaTimes (Render_main ?t) =
        filter (\<lambda>u. shd (clock_main ?t) - 1000000000 \<le> u) (mouseDeltaTimes ?t)"
      "mouseHz (Render_main ?t) = real (length (mouseDeltaTimes (Render_main ?t)))"
    by blast+
  from r(1) have r1: "mouseDeltaTimes (Render_main ?t) = [2000000000, 2500000000]"
    by (simp add: t)
  with r(2) have r2: "mouseHz (Render_main ?t) = 2" by simp
  from eq r1 r2 show ?thesis
    by (simp add: t ascending_example_clock)
qed

section \<open>The bounded histories of both programs\<close>

lemma example_full_samples_simps [simp]:
  "state example_full_samples = Flashing"
  "flashStartTime example_full_samples = 2000000000"
  "clock example_full_samples = siterate (\<lambda>t. t + 500000000) 2500000000"
  "length (reactionTimes example_full_samples) = 25"
  by (simp_all add: example_full_samples_def)

lemma example_full_log_simps [simp]:
  "enableLog example_full_log"
  "length (logEntries example_full_log) = 30"
  "clock_main example_full_log = siterate (\<lambda>t. t + 500000000) 1000000000"
  "appStartTime example_full_log = 0"
  "lastEventTimeMs example_full_log = 0"
  by (simp_all add: example_full_log_def initial_main_def example_clock_def)

text \<open>
  Claim C5. Neither history exceeds its cap in any state a run reaches: at most 25
  samples in the reaction tester, at most 30 log lines in the latency tester. When the
  history is full, a new entry goes to the front, the last (oldest) entry alone is
  removed, the others keep their order, and the size stays at the cap.
\<close>

theorem bounded_histories:
  "(run evs (initial clk gen fmt frames ok) = Some t \<longrightarrow>
      length (reactionTimes t) \<le> MAX_LOG_ENTRIES) \<and>
   length (logEntries (run_main W evs' (initial_main clk'))) \<le> MAX_LOG_ENTRIES_main \<and>
   (data raw = RIM_TYPEMOUSE mouse \<and> buttonDown mouse \<and> state s = Flashing \<and>
    length (reactionTimes s) = MAX_LOG_ENTRIES \<longrightarrow>
      (\<exists>s'. ProcessRawInput (Some raw) s = Some s' \<and>
            reactionTimes s' =
              duration_ms (shd (clock s)) (flashStartTime s) # butlast (reactionTimes s) \<and>
            length (reactionTimes s') = MAX_LOG_ENTRIES)) \<and>
   (enableLog u \<and> length (logEntries u) = MAX_LOG_ENTRIES_main \<longrightarrow>
      logEntries (TriggerFlash W inputInfo deviceInfo u) =
        (swprintf_time W (duration_ms (shd (clock_main u)) (appStartTime u))
           (duration_ms (shd (clock_main u)) (appStartTime u) - lastEventTimeMs u) @
         '' | '' @ inputInfo @ '' | '' @ deviceInfo) # butlast (logEntries u) \<and>
      length (logEntries (TriggerFlash W inputInfo deviceInfo u)) = MAX_LOG_ENTRIES_main)"
proof (intro conjI impI)
  assume "run evs (initial clk gen fmt frames ok) = Some t"
  from stats_invariant [OF this] show "length (reactionTimes t) \<le> MAX_LOG_ENTRIES" by simp
next
  show "length (logEntries (run_main W evs' (initial_main clk'))) \<le> MAX_LOG_ENTRIES_main"
    by (rule run_main_log_bound)
next
  assume a: "data raw = RIM_TYPEMOUSE mouse \<and> buttonDown mouse \<and> state s = Flashing \<and>
    length (reactionTimes s) = MAX_LOG_ENTRIES"
  then have "data raw = RIM_TYPEMOUSE mouse" "buttonDown mouse" "state s = Flashing"
    by simp_all
  from ProcessRawInput_Flashing_eq [OF this] a
  show "\<exists>s'. ProcessRawInput (Some raw) s = Some s' \<and>
            reactionTimes s' =
              duration_ms (shd (clock s)) (flashStartTime s) # butlast (reactionTimes s) \<and>
            length (reactionTimes s') = MAX_LOG_ENTRIES"
    by (simp add: Let_def MAX_LOG_ENTRIES_def)
next
  assume a: "enableLog u \<and> length (logEntries u) = MAX_LOG_ENTRIES_main"
  then show "logEntries (TriggerFlash W inputInfo deviceInfo u) =
        (swprintf_time W (duration_ms (shd (clock_main u)) (appStartTime u))
           (duration_ms (shd (clock_main u)) (appStartTime u) - lastEventTimeMs u) @
         '' | '' @ inputInfo @ '' | '' @ deviceInfo) # butlast (logEntries u)"
    by (simp add: TriggerFlash_logEntries Let_def)
  from a show "length (logEntries (TriggerFlash W inputInfo deviceInfo u)) = MAX_LOG_ENTRIES_main"
    by (simp add: TriggerFlash_logEntries Let_def MAX_LOG_ENTRIES_main_def)
qed

theorem bounded_histories_witness:
  "(\<exists>t. run example_trial (initial example_clock (sconst 1500) example_format 144 True) = Some t \<and>
        reactionTimes t = [500] \<and> length (reactionTimes t) \<le> MAX_LOG_ENTRIES) \<and>
   state example_full_samples = Flashing \<and>
   length (reactionTimes example_full_samples) = MAX_LOG_ENTRIES \<and>
   (\<exists>s'. ProcessRawInput (Some click) example_full_samples = Some s' \<and>
         reactionTimes s' =
           [500, 250, 249, 248, 247, 246, 245, 244, 243, 242, 241, 240, 239, 238, 237, 236,
            235, 234, 233, 232, 231, 230, 229, 228, 227] \<and>
         length (reactionTimes s') = MAX_LOG_ENTRIES) \<and>
   enableLog example_full_log \<and> length (logEntries example_full_log) = MAX_LOG_ENTRIES_main \<and>
   logEntries (TriggerFlash example_win32 ''Left Click DOWN'' ''MOUSE: VID_046D'' example_full_log) =
     [''t | Left Click DOWN | MOUSE: VID_046D'',
      ''30'', ''29'', ''28'', ''27'', ''26'', ''25'', ''24'', ''23'', ''22'', ''21'',
      ''20'', ''19'', ''18'', ''17'', ''16'', ''15'', ''14'', ''13'', ''12'', ''11'',
      ''10'', ''9'', ''8'', ''7'', ''6'', ''5'', ''4'', ''3'', ''2''] \<and>
   length (logEntries (TriggerFlash example_win32 ''Left Click DOWN'' ''MOUSE: VID_046D''
     example_full_log)) = MAX_LOG_ENTRIES_main"
proof -
  obtain t where t: "run example_trial (initial example_clock (sconst 1500) example_format 144 True) = Some t"
    and rt: "reactionTimes t = [500]"
    using run_example_trial by (simp add: example_start_def)
  note inst = bounded_histories [of example_trial example_clock "sconst 1500" example_format 144
      True t example_win32 "[]" example_clock click left_down example_full_samples
      example_full_log "''Left Click DOWN''" "''MOUSE: VID_046D''"]
  from inst t have a: "length (reactionTimes t) \<le> MAX_LOG_ENTRIES" by blast
  have h: "data click = RIM_TYPEMOUSE left_down \<and> buttonDown left_down \<and>
      state example_full_samples = Flashing \<and>
      length (reactionTimes example_full_samples) = MAX_LOG_ENTRIES"
    by (simp add: MAX_LOG_ENTRIES_def)
  with inst obtain s' where s': "ProcessRawInput (Some click) example_full_samples = Some s'"
    "reactionTimes s' = duration_ms (shd (clock example_full_samples))
        (flashStartTime example_full_samples) # butlast (reactionTimes example_full_samples)"
    "length (reactionTimes s') = MAX_LOG_ENTRIES"
    by blast
  from s'(2) have "reactionTimes s' =
           [500, 250, 249, 248, 247, 246, 245, 244, 243, 242, 241, 240, 239, 238, 237, 236,
            235, 234, 233, 232, 231, 230, 229, 228, 227]"
    by (simp add: duration_ms_def) (simp add: example_full_samples_def)
  with s' have b: "\<exists>s'. ProcessRawInput (Some click) example_full_samples = Some s' \<and>
         reactionTimes s' =
           [500, 250, 249, 248, 247, 246, 245, 244, 243, 242, 241, 240, 239, 238, 237, 236,
            235, 234, 233, 232, 231, 230, 229, 228, 227] \<and>
         length (reactionTimes s') = MAX_LOG_ENTRIES"
    by blast
  have h2: "enableLog example_full_log \<and> length (logEntries example_full_log) = MAX_LOG_ENTRIES_main"
    by (simp add: MAX_LOG_ENTRIES_main_def)
  with inst have c: "logEntries (TriggerFlash example_win32 ''Left Click DOWN'' ''MOUSE: VID_046D'' example_full_log) =
        (swprintf_time example_win32 (duration_ms (shd (clock_main example_full_log)) (appStartTime example_full_log))
           (duration_ms (shd (clock_main example_full_log)) (appStartTime example_full_log) - lastEventTimeMs example_full_log) @
         '' | '' @ ''Left Click DOWN'' @ '' | '' @ ''MOUSE: VID_046D'') # butlast (logEntries example_full_log)"
    and d: "length (logEntries (TriggerFlash example_win32 ''Left Click DOWN'' ''MOUSE: VID_046D''
     example_full_log)) = MAX_LOG_ENTRIES_main"
    by blast+
  from c have c': "logEntries (TriggerFlash example_win32 ''Left Click DOWN'' ''MOUSE: VID_046D'' example_full_log) =
     [''t | Left Click DOWN | MOUSE: VID_046D'',
      ''30'', ''29'', ''28'', ''27'', ''26'', ''25'', ''24'', ''23'', ''22'', ''21'',
      ''20'', ''19'', ''18'', ''17'', ''16'', ''15'', ''14'', ''13'', ''12'', ''11'',
      ''10'', ''9'', ''8'', ''7'', ''6'', ''5'', ''4'', ''3'', ''2'']"
    by (simp add: example_win32_def) (simp add: example_full_log_def)
  from t rt a h b h2 c' d show ?thesis by blast
qed

end
